theory Spec2Isabelle
  imports Complex_Main
begin

section \<open>The decimal arithmetic of the source\<close>

text \<open>
  The module computes with Python's \<^verbatim>\<open>decimal.Decimal\<close> under
  \<^verbatim>\<open>getcontext().prec = 28\<close>. A finite Decimal is modelled by its numerical value,
  a rational number: comparisons, \<^verbatim>\<open>int(...)\<close> and every arithmetic result of the
  library depend on the value only. Constructing a Decimal from an integer or a string is
  exact; each arithmetic operation returns the exact result rounded to 28 significant
  digits, ties to the even neighbour (the context's default rounding).

  Two limits of the runtime are outside the model, and the theorems below are about values
  within them: the exponent range of the context (\<^verbatim>\<open>Emax = 999999\<close>,
  \<^verbatim>\<open>Emin = -999999\<close>, beyond which an operation signals overflow or underflow), and
  the interpreter's bound on the number of digits of an integer converted by
  \<^verbatim>\<open>str\<close>.
\<close>

type_synonym decimal = rat

text \<open>The number of decimal digits of a positive integer, less one.\<close>

function ilog10 :: "int \<Rightarrow> int" where
  "ilog10 n = (if n < 10 then 0 else 1 + ilog10 (n div 10))"
  by pat_completeness auto
termination
  by (relation "measure nat") auto

text \<open>The adjusted exponent of a nonzero value: the power of ten of its leading digit.\<close>

definition adjusted :: "rat \<Rightarrow> int" where
  "adjusted x =
     (let (p, q) = quotient_of \<bar>x\<bar>;
          e = ilog10 p - ilog10 q
      in if 10 powi e \<le> \<bar>x\<bar> then e else e - 1)"

definition round_half_even :: "rat \<Rightarrow> int" where
  "round_half_even y =
     (let f = \<lfloor>y\<rfloor>; r = y - of_int f
      in if r < 1 / 2 then f
         else if 1 / 2 < r then f + 1
         else if even f then f else f + 1)"

text \<open>Rounding to \<open>p\<close> significant digits.\<close>

definition round_to :: "nat \<Rightarrow> rat \<Rightarrow> rat" where
  "round_to p x =
     (if x = 0 then 0
      else let e = adjusted x - (int p - 1)
           in of_int (round_half_even (x / 10 powi e)) * 10 powi e)"

definition prec :: nat where
  "prec = 28"

definition dec_round :: "decimal \<Rightarrow> decimal" where
  "dec_round x = round_to prec x"

definition dec_add :: "decimal \<Rightarrow> decimal \<Rightarrow> decimal" where
  "dec_add x y = dec_round (x + y)"

definition dec_sub :: "decimal \<Rightarrow> decimal \<Rightarrow> decimal" where
  "dec_sub x y = dec_round (x - y)"

definition dec_mul :: "decimal \<Rightarrow> decimal \<Rightarrow> decimal" where
  "dec_mul x y = dec_round (x * y)"

text \<open>
  Division where the source has already excluded a zero divisor (a nonzero literal, a
  power of ten, or a value tested against zero just before).
\<close>

definition dec_divide :: "decimal \<Rightarrow> decimal \<Rightarrow> decimal" where
  "dec_divide x y = dec_round (x / y)"

text \<open>
  The errors of the module: the \<^verbatim>\<open>ValueError\<close>s it raises, told apart by their
  messages, and the two exceptions of a Decimal division by zero.
\<close>

datatype error =
    AssetNotFound
  | AggregateAccountMismatch
  | InsufficientCash
  | PriceNotSet
  | ZeroPrice
  | ZeroLiability
  | ZeroThreshold
  | ZeroRatio
  | DivisionByZero
  | DivisionUndefined

text \<open>Division by a value the source does not test: the library raises on zero.\<close>

definition dec_div :: "decimal \<Rightarrow> decimal \<Rightarrow> error + decimal" where
  "dec_div x y =
     (if y = 0 then Inl (if x = 0 then DivisionUndefined else DivisionByZero)
      else Inr (dec_round (x / y)))"

text \<open>
  An integer power, as CPython's decimal module computes it: square-and-multiply from
  the exponent's leading bit, every product rounded to the working precision
  \<open>prec + digits(n) + 2\<close>, and the result rounded to \<open>prec\<close> at the end.
\<close>

fun pow_uint :: "nat \<Rightarrow> decimal \<Rightarrow> nat \<Rightarrow> decimal" where
  "pow_uint p b n =
     (if n \<le> 1 then b
      else let h = pow_uint p b (n div 2); s = round_to p (h * h)
           in if odd n then round_to p (s * b) else s)"

definition dec_pow :: "decimal \<Rightarrow> nat \<Rightarrow> decimal" where
  "dec_pow x n =
     (if n = 0 then 1
      else round_to prec (pow_uint (prec + nat (ilog10 (int n) + 1) + 2) x n))"

text \<open>\<^verbatim>\<open>int(x)\<close> of a Decimal truncates toward zero.\<close>

definition dec_to_int :: "decimal \<Rightarrow> int" where
  "dec_to_int x = (if 0 \<le> x then \<lfloor>x\<rfloor> else \<lceil>x\<rceil>)"

section \<open>The data model\<close>

definition WAD :: decimal where
  "WAD = 1000000000000000000"

definition UNIT :: decimal where
  "UNIT = WAD"

record AssetState =
  token_address :: string
  cash :: decimal
  liability :: decimal
  underlying_token_decimals :: int
  aggregate_account :: string
  price_wad :: "decimal option"

record PoolConfig =
  r_threshold :: decimal
  haircut_rate :: decimal
  retention_ratio :: decimal
  pool_type :: string

record MobiusPool =
  pool_address :: string
  config :: PoolConfig
  assets :: "string \<rightharpoonup> AssetState"
  asset_addresses :: "string \<rightharpoonup> string"

section \<open>Mathematical functions\<close>

text \<open>
  \<^verbatim>\<open>_to_wad\<close> and \<^verbatim>\<open>_from_wad\<close> have no \<^verbatim>\<open>raise\<close> and divide by a power of ten only; they
  are functions of the values. The runtime can still stop them on inputs beyond the two
  limits named at the head of the file: \<^verbatim>\<open>str(x)\<close> refuses an integer of more than 4300
  digits, and a product whose leading digit is above \<open>10 ^ 999999\<close> signals overflow. With
  \<open>\<bar>x\<bar> < 10 ^ 28\<close> and \<open>\<bar>18 - d\<bar> \<le> 999972\<close> every intermediate value is within them; the
  theorems on the two functions carry these bounds.
\<close>

definition to_wad :: "int \<Rightarrow> int \<Rightarrow> decimal" where
  "to_wad x d =
     (let x_decimal = of_int x
      in if d < 18 then dec_mul x_decimal (of_int (10 ^ nat (18 - d)))
         else if 18 < d then dec_divide x_decimal (of_int (10 ^ nat (d - 18)))
         else x_decimal)"

definition from_wad :: "decimal \<Rightarrow> int \<Rightarrow> decimal" where
  "from_wad x d =
     (if d < 18 then dec_divide x (of_int (10 ^ nat (18 - d)))
      else if 18 < d then dec_mul x (of_int (10 ^ nat (d - 18)))
      else x)"

definition coverage_ratio :: "decimal \<Rightarrow> decimal \<Rightarrow> error + decimal" where
  "coverage_ratio cash_wad liability_wad =
     (if liability_wad = 0 then Inl ZeroLiability
      else Inr (dec_divide cash_wad liability_wad))"

text \<open>The three branches of \<^verbatim>\<open>_solvency_curve_integral\<close>, in the source's order.\<close>

definition first_branch :: "decimal \<Rightarrow> decimal \<Rightarrow> decimal" where
  "first_branch r_thres_wad r_wad =
     dec_sub (dec_add (dec_divide (dec_sub UNIT r_thres_wad) 5000000000000000000)
                      r_thres_wad)
             r_wad"

definition second_branch :: "decimal \<Rightarrow> decimal \<Rightarrow> error + decimal" where
  "second_branch r_thres_wad r_wad =
     dec_div (dec_pow (dec_sub UNIT r_wad) 5)
             (dec_mul 5000000000000000000 (dec_pow (dec_sub UNIT r_thres_wad) 4))"

definition solvency_curve_integral :: "decimal \<Rightarrow> decimal \<Rightarrow> error + decimal" where
  "solvency_curve_integral r_thres_wad r_wad =
     (if r_thres_wad = 0 then Inl ZeroThreshold
      else if r_wad = 0 then Inl ZeroRatio
      else if r_wad \<le> r_thres_wad then Inr (first_branch r_thres_wad r_wad)
      else if r_wad < UNIT then second_branch r_thres_wad r_wad
      else Inr 0)"

definition solvency_score ::
  "decimal \<Rightarrow> decimal \<Rightarrow> decimal \<Rightarrow> decimal \<Rightarrow> bool \<Rightarrow> error + decimal" where
  "solvency_score r_thres_wad cash_wad liability_wad cash_change_wad add_cash =
     (if liability_wad = 0 then Inl ZeroLiability
      else
        let cov_before = dec_divide cash_wad liability_wad;
            cov_after =
              (if add_cash then dec_divide (dec_add cash_wad cash_change_wad) liability_wad
               else dec_divide (dec_sub cash_wad cash_change_wad) liability_wad)
        in if cov_before = cov_after then Inr 0
           else
             let cov_before_wad = dec_mul cov_before UNIT;
                 cov_after_wad = dec_mul cov_after UNIT
             in case solvency_curve_integral r_thres_wad cov_before_wad of
                  Inl e \<Rightarrow> Inl e
                | Inr solvency_integral_before \<Rightarrow>
                    (case solvency_curve_integral r_thres_wad cov_after_wad of
                       Inl e \<Rightarrow> Inl e
                     | Inr solvency_integral_after \<Rightarrow>
                         if cov_after < cov_before
                         then dec_div (dec_sub solvency_integral_after solvency_integral_before)
                                      (dec_sub cov_before cov_after)
                         else dec_div (dec_sub solvency_integral_before solvency_integral_after)
                                      (dec_sub cov_after cov_before)))"

definition compute_to_amount :: "decimal \<Rightarrow> decimal \<Rightarrow> decimal \<Rightarrow> decimal" where
  "compute_to_amount si_wad sj_wad from_amount_wad =
     dec_divide (dec_mul from_amount_wad (dec_sub (dec_add UNIT si_wad) sj_wad)) UNIT"

definition haircut :: "decimal \<Rightarrow> decimal \<Rightarrow> decimal" where
  "haircut amount_wad rate_wad = dec_divide (dec_mul amount_wad rate_wad) UNIT"

definition convert_token_amount :: "decimal \<Rightarrow> decimal \<Rightarrow> decimal \<Rightarrow> error + decimal" where
  "convert_token_amount from_amount_wad from_price_wad to_price_wad =
     (if to_price_wad = 0 \<or> from_price_wad = 0 then Inl ZeroPrice
      else Inr (dec_divide (dec_mul from_amount_wad from_price_wad) to_price_wad))"

section \<open>Quoting\<close>

definition quote_ideal_to_amount :: "AssetState \<Rightarrow> AssetState \<Rightarrow> decimal \<Rightarrow> error + decimal" where
  "quote_ideal_to_amount from_asset to_asset from_amount_wad =
     (case (price_wad to_asset, price_wad from_asset) of
        (Some to_price, Some from_price) \<Rightarrow>
          convert_token_amount from_amount_wad from_price to_price
      | _ \<Rightarrow> Inl PriceNotSet)"

definition quote_swap_internal ::
  "MobiusPool \<Rightarrow> AssetState \<Rightarrow> AssetState \<Rightarrow> decimal \<Rightarrow> error + decimal \<times> decimal" where
  "quote_swap_internal self from_asset to_asset from_amount_wad =
     (case (if pool_type (config self) = ''stable'' then Inr from_amount_wad
            else quote_ideal_to_amount from_asset to_asset from_amount_wad) of
        Inl e \<Rightarrow> Inl e
      | Inr ideal_to_amount \<Rightarrow>
          if cash to_asset < ideal_to_amount then Inl InsufficientCash
          else
            (case solvency_score (r_threshold (config self)) (cash from_asset)
                    (liability from_asset) from_amount_wad True of
               Inl e \<Rightarrow> Inl e
             | Inr solvency_from \<Rightarrow>
                 (case solvency_score (r_threshold (config self)) (cash to_asset)
                         (liability to_asset) ideal_to_amount False of
                    Inl e \<Rightarrow> Inl e
                  | Inr solvency_to \<Rightarrow>
                      let to_amount = compute_to_amount (dec_mul solvency_from UNIT)
                                        (dec_mul solvency_to UNIT) ideal_to_amount;
                          hc = haircut to_amount (haircut_rate (config self));
                          actual_to_amount = dec_sub to_amount hc
                      in Inr (actual_to_amount, hc))))"

definition quote_swap :: "MobiusPool \<Rightarrow> string \<Rightarrow> string \<Rightarrow> int \<Rightarrow> error + int \<times> int" where
  "quote_swap self from_token to_token from_amount =
     (case (assets self from_token, assets self to_token) of
        (Some from_asset, Some to_asset) \<Rightarrow>
          if aggregate_account from_asset \<noteq> aggregate_account to_asset
          then Inl AggregateAccountMismatch
          else
            let from_amount_wad = to_wad from_amount (underlying_token_decimals from_asset)
            in (case quote_swap_internal self from_asset to_asset from_amount_wad of
                  Inl e \<Rightarrow> Inl e
                | Inr (to_amount_wad, haircut_wad) \<Rightarrow>
                    Inr (dec_to_int (from_wad to_amount_wad (underlying_token_decimals to_asset)),
                         dec_to_int (from_wad haircut_wad (underlying_token_decimals to_asset))))
      | _ \<Rightarrow> Inl AssetNotFound)"

text \<open>
  The body of \<^verbatim>\<open>validate_swap\<close> inside its \<^verbatim>\<open>try\<close>, and the method itself, whose
  \<^verbatim>\<open>except Exception\<close> turns every error of the body into \<^verbatim>\<open>False\<close>.
\<close>

definition validate_swap_body :: "MobiusPool \<Rightarrow> string \<Rightarrow> string \<Rightarrow> int \<Rightarrow> error + bool" where
  "validate_swap_body self from_token to_token from_amount =
     (case (assets self from_token, assets self to_token) of
        (Some from_asset, Some to_asset) \<Rightarrow>
          if aggregate_account from_asset \<noteq> aggregate_account to_asset then Inr False
          else if from_amount \<le> 0 then Inr False
          else
            let from_amount_wad = to_wad from_amount (underlying_token_decimals from_asset)
            in (case (if pool_type (config self) = ''stable'' then Inr from_amount_wad
                      else quote_ideal_to_amount from_asset to_asset from_amount_wad) of
                  Inl e \<Rightarrow> Inl e
                | Inr ideal_to_amount \<Rightarrow>
                    if cash to_asset < ideal_to_amount then Inr False else Inr True)
      | _ \<Rightarrow> Inr False)"

definition validate_swap :: "MobiusPool \<Rightarrow> string \<Rightarrow> string \<Rightarrow> int \<Rightarrow> error + bool" where
  "validate_swap self from_token to_token from_amount =
     (case validate_swap_body self from_token to_token from_amount of
        Inl e \<Rightarrow> Inr False
      | Inr b \<Rightarrow> Inr b)"

section \<open>The methods as operations on the pool object\<close>

text \<open>
  A method of \<^verbatim>\<open>MobiusPool\<close> takes the object \<^verbatim>\<open>self\<close> and gives its result, a
  value or a raised error, together with the object after the call. A method body is
  built from four steps: returning a value, raising, reading an attribute of \<^verbatim>\<open>self\<close>,
  and running one step after another, where the second step starts from the object the
  first one left and an error of the first ends the body with the object as it then is.
  \<^verbatim>\<open>try ... except Exception\<close> runs its handler on the error, from the object the body
  left.
\<close>

type_synonym 'a pool_method = "MobiusPool \<Rightarrow> (error + 'a) \<times> MobiusPool"

definition return_m :: "'a \<Rightarrow> 'a pool_method" where
  "return_m v = (\<lambda>self. (Inr v, self))"

definition raise_m :: "error \<Rightarrow> 'a pool_method" where
  "raise_m e = (\<lambda>self. (Inl e, self))"

definition read_m :: "(MobiusPool \<Rightarrow> 'a) \<Rightarrow> 'a pool_method" where
  "read_m attribute = (\<lambda>self. (Inr (attribute self), self))"

definition bind_m :: "'a pool_method \<Rightarrow> ('a \<Rightarrow> 'b pool_method) \<Rightarrow> 'b pool_method" where
  "bind_m m f =
     (\<lambda>self. case m self of
                (Inl e, self') \<Rightarrow> (Inl e, self')
              | (Inr v, self') \<Rightarrow> f v self')"

definition except_m :: "'a pool_method \<Rightarrow> (error \<Rightarrow> 'a pool_method) \<Rightarrow> 'a pool_method" where
  "except_m m handler =
     (\<lambda>self. case m self of
                (Inl e, self') \<Rightarrow> handler e self'
              | (Inr v, self') \<Rightarrow> (Inr v, self'))"

text \<open>The end of a body that returns the value of an expression which may raise.\<close>

definition result_m :: "error + 'a \<Rightarrow> 'a pool_method" where
  "result_m r = (case r of Inl e \<Rightarrow> raise_m e | Inr v \<Rightarrow> return_m v)"

text \<open>
  The mathematical methods: their bodies name no attribute of \<^verbatim>\<open>self\<close> and call no
  method; they evaluate an expression of their arguments and return or raise.
\<close>

definition to_wad_m :: "int \<Rightarrow> int \<Rightarrow> decimal pool_method" where
  "to_wad_m x d = return_m (to_wad x d)"

definition from_wad_m :: "decimal \<Rightarrow> int \<Rightarrow> decimal pool_method" where
  "from_wad_m x d = return_m (from_wad x d)"

definition solvency_curve_integral_m :: "decimal \<Rightarrow> decimal \<Rightarrow> decimal pool_method" where
  "solvency_curve_integral_m r_thres_wad r_wad =
     result_m (solvency_curve_integral r_thres_wad r_wad)"

definition compute_to_amount_m :: "decimal \<Rightarrow> decimal \<Rightarrow> decimal \<Rightarrow> decimal pool_method" where
  "compute_to_amount_m si_wad sj_wad from_amount_wad =
     return_m (compute_to_amount si_wad sj_wad from_amount_wad)"

definition haircut_m :: "decimal \<Rightarrow> decimal \<Rightarrow> decimal pool_method" where
  "haircut_m amount_wad rate_wad = return_m (haircut amount_wad rate_wad)"

definition convert_token_amount_m :: "decimal \<Rightarrow> decimal \<Rightarrow> decimal \<Rightarrow> decimal pool_method" where
  "convert_token_amount_m from_amount_wad from_price_wad to_price_wad =
     result_m (convert_token_amount from_amount_wad from_price_wad to_price_wad)"

text \<open>The methods that call other methods or read the object, statement by statement.\<close>

definition solvency_score_m ::
  "decimal \<Rightarrow> decimal \<Rightarrow> decimal \<Rightarrow> decimal \<Rightarrow> bool \<Rightarrow> decimal pool_method" where
  "solvency_score_m r_thres_wad cash_wad liability_wad cash_change_wad add_cash =
     (if liability_wad = 0 then raise_m ZeroLiability
      else
        let cov_before = dec_divide cash_wad liability_wad;
            cov_after =
              (if add_cash then dec_divide (dec_add cash_wad cash_change_wad) liability_wad
               else dec_divide (dec_sub cash_wad cash_change_wad) liability_wad)
        in if cov_before = cov_after then return_m 0
           else
             let cov_before_wad = dec_mul cov_before UNIT;
                 cov_after_wad = dec_mul cov_after UNIT
             in bind_m (solvency_curve_integral_m r_thres_wad cov_before_wad)
                  (\<lambda>solvency_integral_before.
                     bind_m (solvency_curve_integral_m r_thres_wad cov_after_wad)
                       (\<lambda>solvency_integral_after.
                          if cov_after < cov_before
                          then result_m
                                 (dec_div (dec_sub solvency_integral_after solvency_integral_before)
                                          (dec_sub cov_before cov_after))
                          else result_m
                                 (dec_div (dec_sub solvency_integral_before solvency_integral_after)
                                          (dec_sub cov_after cov_before)))))"

definition quote_ideal_to_amount_m ::
  "AssetState \<Rightarrow> AssetState \<Rightarrow> decimal \<Rightarrow> decimal pool_method" where
  "quote_ideal_to_amount_m from_asset to_asset from_amount_wad =
     (case (price_wad to_asset, price_wad from_asset) of
        (Some to_price, Some from_price) \<Rightarrow>
          convert_token_amount_m from_amount_wad from_price to_price
      | _ \<Rightarrow> raise_m PriceNotSet)"

definition quote_swap_internal_m ::
  "AssetState \<Rightarrow> AssetState \<Rightarrow> decimal \<Rightarrow> (decimal \<times> decimal) pool_method" where
  "quote_swap_internal_m from_asset to_asset from_amount_wad =
     bind_m (read_m (\<lambda>self. pool_type (config self)))
       (\<lambda>ptype.
          bind_m (if ptype = ''stable'' then return_m from_amount_wad
                  else quote_ideal_to_amount_m from_asset to_asset from_amount_wad)
            (\<lambda>ideal_to_amount.
               if cash to_asset < ideal_to_amount then raise_m InsufficientCash
               else
                 bind_m (read_m (\<lambda>self. r_threshold (config self)))
                   (\<lambda>r_thres_from.
                      bind_m (solvency_score_m r_thres_from (cash from_asset)
                                (liability from_asset) from_amount_wad True)
                        (\<lambda>solvency_from.
                           bind_m (read_m (\<lambda>self. r_threshold (config self)))
                             (\<lambda>r_thres_to.
                                bind_m (solvency_score_m r_thres_to (cash to_asset)
                                          (liability to_asset) ideal_to_amount False)
                                  (\<lambda>solvency_to.
                                     bind_m (compute_to_amount_m (dec_mul solvency_from UNIT)
                                               (dec_mul solvency_to UNIT) ideal_to_amount)
                                       (\<lambda>to_amount.
                                          bind_m (read_m (\<lambda>self. haircut_rate (config self)))
                                            (\<lambda>rate.
                                               bind_m (haircut_m to_amount rate)
                                                 (\<lambda>hc.
                                                    return_m
                                                      (dec_sub to_amount hc, hc))))))))))"

definition quote_swap_m :: "string \<Rightarrow> string \<Rightarrow> int \<Rightarrow> (int \<times> int) pool_method" where
  "quote_swap_m from_token to_token from_amount =
     bind_m (read_m (\<lambda>self. assets self from_token))
       (\<lambda>from_entry.
          bind_m (read_m (\<lambda>self. assets self to_token))
            (\<lambda>to_entry.
               case (from_entry, to_entry) of
                 (Some from_asset, Some to_asset) \<Rightarrow>
                   if aggregate_account from_asset \<noteq> aggregate_account to_asset
                   then raise_m AggregateAccountMismatch
                   else
                     bind_m (to_wad_m from_amount (underlying_token_decimals from_asset))
                       (\<lambda>from_amount_wad.
                          bind_m (quote_swap_internal_m from_asset to_asset from_amount_wad)
                            (\<lambda>(to_amount_wad, haircut_wad).
                               bind_m (from_wad_m to_amount_wad
                                         (underlying_token_decimals to_asset))
                                 (\<lambda>to_amount.
                                    bind_m (from_wad_m haircut_wad
                                              (underlying_token_decimals to_asset))
                                      (\<lambda>hc.
                                         return_m (dec_to_int to_amount, dec_to_int hc)))))
               | _ \<Rightarrow> raise_m AssetNotFound))"

definition validate_swap_m :: "string \<Rightarrow> string \<Rightarrow> int \<Rightarrow> bool pool_method" where
  "validate_swap_m from_token to_token from_amount =
     except_m
       (bind_m (read_m (\<lambda>self. assets self from_token))
          (\<lambda>from_entry.
             bind_m (read_m (\<lambda>self. assets self to_token))
               (\<lambda>to_entry.
                  case (from_entry, to_entry) of
                    (Some from_asset, Some to_asset) \<Rightarrow>
                      if aggregate_account from_asset \<noteq> aggregate_account to_asset
                      then return_m False
                      else if from_amount \<le> 0 then return_m False
                      else
                        bind_m (to_wad_m from_amount (underlying_token_decimals from_asset))
                          (\<lambda>from_amount_wad.
                             bind_m (read_m (\<lambda>self. pool_type (config self)))
                               (\<lambda>ptype.
                                  bind_m (if ptype = ''stable'' then return_m from_amount_wad
                                          else quote_ideal_to_amount_m from_asset to_asset
                                                 from_amount_wad)
                                    (\<lambda>ideal_to_amount.
                                       if cash to_asset < ideal_to_amount then return_m False
                                       else return_m True)))
                  | _ \<Rightarrow> return_m False)))
       (\<lambda>e. return_m False)"

definition get_asset_state_m :: "string \<Rightarrow> AssetState option pool_method" where
  "get_asset_state_m token = read_m (\<lambda>self. assets self token)"

definition is_stable_asset_m :: "string \<Rightarrow> bool pool_method" where
  "is_stable_asset_m token =
     bind_m (read_m (\<lambda>self. assets self token))
       (\<lambda>entry. return_m (case entry of None \<Rightarrow> False | Some asset \<Rightarrow> price_wad asset = None))"

text \<open>
  The two state-sync methods assign to the object: \<^verbatim>\<open>update_asset_state\<close> stores a new
  entry in both dictionaries, \<^verbatim>\<open>update_asset_price\<close> sets the price field of an entry.
\<close>

definition update_asset_state ::
  "MobiusPool \<Rightarrow> string \<Rightarrow> string \<Rightarrow> int \<Rightarrow> int \<Rightarrow> int \<Rightarrow> string \<Rightarrow> bool \<Rightarrow> int option
     \<Rightarrow> (error + unit) \<times> MobiusPool" where
  "update_asset_state self token asset_address cash_in liability_in decimals account
       values_in_wad price_in =
     (let cash_wad = (if values_in_wad then of_int cash_in else to_wad cash_in decimals);
          liability_wad =
            (if values_in_wad then of_int liability_in else to_wad liability_in decimals);
          price_decimal = map_option of_int price_in;
          entry = \<lparr>token_address = token, cash = cash_wad, liability = liability_wad,
                   underlying_token_decimals = decimals, aggregate_account = account,
                   price_wad = price_decimal\<rparr>
      in (Inr (),
          self\<lparr>assets := (assets self)(token \<mapsto> entry),
               asset_addresses := (asset_addresses self)(token \<mapsto> asset_address)\<rparr>))"

definition update_asset_price ::
  "MobiusPool \<Rightarrow> string \<Rightarrow> int \<Rightarrow> (error + unit) \<times> MobiusPool" where
  "update_asset_price self token price_in =
     (case assets self token of
        None \<Rightarrow> (Inl AssetNotFound, self)
      | Some asset \<Rightarrow>
          (Inr (),
           self\<lparr>assets := (assets self)(token \<mapsto> asset\<lparr>price_wad := Some (of_int price_in)\<rparr>)\<rparr>))"

section \<open>Example pools\<close>

text \<open>
  The two pools the module builds in \<^verbatim>\<open>create_mantle_mainnet_stable_pool\<close> with
  \<^verbatim>\<open>setup_stable_pool_state\<close> and in \<^verbatim>\<open>create_mantle_mainnet_variant_pool\<close> with
  \<^verbatim>\<open>setup_variant_pool_state\<close>, keyed by the token addresses of
  \<^verbatim>\<open>MANTLE_MAINNET_ADDRESSES\<close>.
\<close>

definition USDe :: string where "USDe = ''0x5d3a1Ff2b6BAb83b63cd9AD0787074081a52ef34''"
definition USDC :: string where "USDC = ''0x09Bc4E0D864854c6aFB6eB9A9cdF58aC190D0dF9''"
definition USDT :: string where "USDT = ''0x201EBa5CC46D216Ce6DC03F6a759e8E766e956aE''"
definition cmETH :: string where "cmETH = ''0xE6829d9a7eE3040e1276Fa75293Bde931859e8fA''"
definition mETH :: string where "mETH = ''0xcDA86A272531e8640cD7F1a92c01839911B90bb0''"
definition WETH :: string where "WETH = ''0xdEAddEaDdeadDEadDEADDEAddEADDEAddead1111''"

definition stable_account :: string where
  "stable_account = ''0x7f63b4B1B9177BD064040D4F7ceBEef328f33e20''"

definition variant_account :: string where
  "variant_account = ''0x927348962E7Bf9e156845585Cf858c613D389f4B''"

definition stable_pool :: MobiusPool where
  "stable_pool =
     \<lparr>pool_address = ''0x3c056E0efaE7218b257868734b1dA7719B41F920'',
      config = \<lparr>r_threshold = 230000000000000000, haircut_rate = 50000000000000,
                retention_ratio = 200000000000000000, pool_type = ''stable''\<rparr>,
      assets =
        [USDe \<mapsto> \<lparr>token_address = USDe, cash = 21564039972018040980967,
                   liability = 24336765812301186559140, underlying_token_decimals = 18,
                   aggregate_account = stable_account, price_wad = None\<rparr>,
         USDC \<mapsto> \<lparr>token_address = USDC, cash = 21491644533317066991913,
                   liability = 18717507771725148273016, underlying_token_decimals = 6,
                   aggregate_account = stable_account, price_wad = None\<rparr>,
         USDT \<mapsto> \<lparr>token_address = USDT, cash = 17494532897516387104081,
                   liability = 17494496221405803482740, underlying_token_decimals = 6,
                   aggregate_account = stable_account, price_wad = None\<rparr>],
      asset_addresses =
        [USDe \<mapsto> ''0x362F4D6F539201dB13A7305369a48FaC58960be5'',
         USDC \<mapsto> ''0xb8Ca9787Cf03c6f1fA6ef207aB93e875F3B84426'',
         USDT \<mapsto> ''0x6A7D252b807887AfEE870d14C5D7eb25f00A7044'']\<rparr>"

definition variant_pool :: MobiusPool where
  "variant_pool =
     \<lparr>pool_address = ''0xF95595635D4b09aE4c662069e82CA43012118707'',
      config = \<lparr>r_threshold = 200000000000000000, haircut_rate = 50000000000000,
                retention_ratio = 200000000000000000, pool_type = ''variant''\<rparr>,
      assets =
        [WETH \<mapsto> \<lparr>token_address = WETH, cash = 100000000000000000000,
                   liability = 100000000000000000000, underlying_token_decimals = 18,
                   aggregate_account = variant_account,
                   price_wad = Some 1000000000000000000\<rparr>,
         cmETH \<mapsto> \<lparr>token_address = cmETH, cash = 100000000000000000000,
                   liability = 100000000000000000000, underlying_token_decimals = 18,
                   aggregate_account = variant_account,
                   price_wad = Some 1072690000000000000\<rparr>,
         mETH \<mapsto> \<lparr>token_address = mETH, cash = 100000000000000000000,
                   liability = 100000000000000000000, underlying_token_decimals = 18,
                   aggregate_account = variant_account,
                   price_wad = Some 1072690000000000000\<rparr>],
      asset_addresses =
        [WETH \<mapsto> ''0x6d01Ad49e74aa488EB293c1869D4aCDC39359B4b'',
         cmETH \<mapsto> ''0x801f29bB8fa066b71bF2f4e1Af34D7E4682cCecc'',
         mETH \<mapsto> ''0x88837Ef995907016C5ca0776693f6B2339A44E35'']\<rparr>"

text \<open>
  The variant pool after a state sync that registers USDe without a price
  (\<^verbatim>\<open>update_asset_state(..., price_wad=None)\<close>).
\<close>

definition unpriced_pool :: MobiusPool where
  "unpriced_pool =
     snd (update_asset_state variant_pool USDe ''0x362F4D6F539201dB13A7305369a48FaC58960be5''
            100000000000000000000 100000000000000000000 18 variant_account True None)"

text \<open>
  A stable pool with the mainnet configuration whose second asset holds a fifth of its
  liability in cash, below the threshold of 0.23.
\<close>

definition thin_pool :: MobiusPool where
  "thin_pool =
     \<lparr>pool_address = ''thin'',
      config = \<lparr>r_threshold = 230000000000000000, haircut_rate = 50000000000000,
                retention_ratio = 200000000000000000, pool_type = ''stable''\<rparr>,
      assets =
        [''A'' \<mapsto> \<lparr>token_address = ''A'', cash = 100000000000000000000,
                   liability = 100000000000000000000, underlying_token_decimals = 18,
                   aggregate_account = ''acc'', price_wad = None\<rparr>,
         ''B'' \<mapsto> \<lparr>token_address = ''B'', cash = 20000000000000000000,
                   liability = 100000000000000000000, underlying_token_decimals = 18,
                   aggregate_account = ''acc'', price_wad = None\<rparr>],
      asset_addresses = Map.empty\<rparr>"

text \<open>
  A stable pool whose configuration has a threshold of zero, which the constructor of
  \<^verbatim>\<open>PoolConfig\<close> accepts; the cash of its first asset has 29 significant digits.
\<close>

definition zero_threshold_pool :: MobiusPool where
  "zero_threshold_pool =
     \<lparr>pool_address = ''zero'',
      config = \<lparr>r_threshold = 0, haircut_rate = 50000000000000,
                retention_ratio = 200000000000000000, pool_type = ''stable''\<rparr>,
      assets =
        [''A'' \<mapsto> \<lparr>token_address = ''A'', cash = 10000000000000000000000000005,
                   liability = 3, underlying_token_decimals = 18,
                   aggregate_account = ''acc'', price_wad = None\<rparr>,
         ''B'' \<mapsto> \<lparr>token_address = ''B'', cash = 100000000000000000000,
                   liability = 100000000000000000000, underlying_token_decimals = 18,
                   aggregate_account = ''acc'', price_wad = None\<rparr>],
      asset_addresses = Map.empty\<rparr>"

section \<open>Properties of rounding\<close>

text \<open>
  The adjusted exponent brackets the value between two powers of ten; rounding to \<open>p\<close>
  digits keeps the sign, is monotone, commutes with scaling by a power of ten, and is the
  identity on a value of at most \<open>p\<close> significant digits.
\<close>

declare ilog10.simps [simp del]

lemma ilog10_bounds:
  "1 \<le> n \<Longrightarrow> 0 \<le> ilog10 n \<and> 10 ^ nat (ilog10 n) \<le> n \<and> n < 10 ^ nat (ilog10 n + 1)"
proof (induction n rule: ilog10.induct)
  case (1 n)
  show ?case
  proof (cases "n < 10")
    case True
    with "1.prems" show ?thesis by (simp add: ilog10.simps [of n])
  next
    case False
    then have ge: "1 \<le> n div 10" by simp
    from "1.IH" [OF False ge]
    have ih: "0 \<le> ilog10 (n div 10)" "10 ^ nat (ilog10 (n div 10)) \<le> n div 10"
      "n div 10 < 10 ^ nat (ilog10 (n div 10) + 1)" by simp_all
    have eq: "ilog10 n = 1 + ilog10 (n div 10)"
      using False by (simp add: ilog10.simps [of n])
    have n1: "nat (1 + ilog10 (n div 10)) = Suc (nat (ilog10 (n div 10)))"
      using ih(1) by simp
    have n2: "nat (1 + ilog10 (n div 10) + 1) = Suc (nat (ilog10 (n div 10) + 1))"
      using ih(1) by simp
    have lo: "10 * (n div 10) \<le> n" by simp
    have hi: "n < 10 * (n div 10 + 1)" by simp
    have "10 ^ nat (ilog10 n) \<le> n"
      unfolding eq n1 using ih(2) lo by simp
    moreover have "n < 10 ^ nat (ilog10 n + 1)"
      unfolding eq n2 using ih(3) hi by simp
    moreover have "0 \<le> ilog10 n" unfolding eq using ih(1) by simp
    ultimately show ?thesis by simp
  qed
qed

lemma adjusted_bounds:
  assumes "x \<noteq> 0"
  shows "10 powi adjusted x \<le> \<bar>x\<bar> \<and> \<bar>x\<bar> < 10 powi (adjusted x + 1)"
proof -
  obtain p q where pq: "quotient_of \<bar>x\<bar> = (p, q)" by (cases "quotient_of \<bar>x\<bar>")
  have q: "0 < q" using quotient_of_denom_pos [OF pq] .
  have xe: "\<bar>x\<bar> = of_int p / of_int q" using quotient_of_div [OF pq] .
  have xpos: "0 < \<bar>x\<bar>" using assms by simp
  have p: "0 < p"
  proof (rule ccontr)
    assume "\<not> 0 < p"
    then have "of_int p / (of_int q :: rat) \<le> 0"
      using q by (simp add: divide_le_0_iff)
    with xe xpos show False by simp
  qed
  define lp where "lp = ilog10 p"
  define lq where "lq = ilog10 q"
  from ilog10_bounds [of p] p have bp: "0 \<le> lp" "10 ^ nat lp \<le> p" "p < 10 ^ nat (lp + 1)"
    by (simp_all add: lp_def)
  from ilog10_bounds [of q] q have bq: "0 \<le> lq" "10 ^ nat lq \<le> q" "q < 10 ^ nat (lq + 1)"
    by (simp_all add: lq_def)
  have rp1: "(10::rat) powi lp \<le> of_int p"
  proof -
    have "(of_int (10 ^ nat lp) :: rat) \<le> of_int p" using bp(2) by (simp only: of_int_le_iff)
    then show ?thesis using bp(1) by (simp add: power_int_def)
  qed
  have rp2: "of_int p < (10::rat) powi (lp + 1)"
  proof -
    have "(of_int p :: rat) < of_int (10 ^ nat (lp + 1))" using bp(3) by (simp only: of_int_less_iff)
    then show ?thesis using bp(1) by (simp add: power_int_def)
  qed
  have rq1: "(10::rat) powi lq \<le> of_int q"
  proof -
    have "(of_int (10 ^ nat lq) :: rat) \<le> of_int q" using bq(2) by (simp only: of_int_le_iff)
    then show ?thesis using bq(1) by (simp add: power_int_def)
  qed
  have rq2: "of_int q < (10::rat) powi (lq + 1)"
  proof -
    have "(of_int q :: rat) < of_int (10 ^ nat (lq + 1))" using bq(3) by (simp only: of_int_less_iff)
    then show ?thesis using bq(1) by (simp add: power_int_def)
  qed
  have qr: "(0::rat) < of_int q" using q by simp
  have upper: "\<bar>x\<bar> < 10 powi (lp - lq + 1)"
  proof -
    have "of_int p / of_int q < (10::rat) powi (lp + 1) / of_int q"
      using rp2 qr by (simp add: divide_strict_right_mono)
    also have "\<dots> \<le> 10 powi (lp + 1) / 10 powi lq"
      using rq1 qr by (intro divide_left_mono) (simp_all add: mult_pos_pos)
    also have "\<dots> = 10 powi (lp - lq + 1)"
      by (simp add: power_int_diff [symmetric] algebra_simps)
    finally show ?thesis by (simp add: xe)
  qed
  have lower: "10 powi (lp - lq - 1) \<le> \<bar>x\<bar>"
  proof -
    have "(10::rat) powi (lp - lq - 1) = 10 powi lp / 10 powi (lq + 1)"
      by (simp add: power_int_diff [symmetric] algebra_simps)
    also have "\<dots> \<le> of_int p / 10 powi (lq + 1)"
      using rp1 by (intro divide_right_mono) simp_all
    also have "\<dots> \<le> of_int p / of_int q"
      using rq2 p qr by (intro divide_left_mono) simp_all
    finally show ?thesis by (simp add: xe)
  qed
  show ?thesis
  proof (cases "10 powi (lp - lq) \<le> \<bar>x\<bar>")
    case True
    then have "adjusted x = lp - lq"
      by (simp add: adjusted_def pq lp_def lq_def)
    with True upper show ?thesis by simp
  next
    case False
    then have "adjusted x = lp - lq - 1"
      by (simp add: adjusted_def pq lp_def lq_def)
    with False lower show ?thesis by simp
  qed
qed

lemma pow10_less_imp: "(10::rat) powi a < 10 powi b \<Longrightarrow> a < b"
proof (rule ccontr)
  assume lt: "(10::rat) powi a < 10 powi b" and "\<not> a < b"
  then have "b \<le> a" by simp
  then have "(10::rat) powi b \<le> 10 powi a" by (rule power_int_increasing) simp
  with lt show False by simp
qed

lemma adjusted_unique:
  assumes "10 powi a \<le> \<bar>x\<bar>" "\<bar>x\<bar> < 10 powi (a + 1)"
  shows "adjusted x = a"
proof -
  have "(0::rat) < 10 powi a" by simp
  then have "0 < \<bar>x\<bar>" using assms(1) by (rule less_le_trans)
  then have nz: "x \<noteq> 0" by simp
  from adjusted_bounds [OF nz]
  have b: "10 powi adjusted x \<le> \<bar>x\<bar>" "\<bar>x\<bar> < 10 powi (adjusted x + 1)" by simp_all
  have "(10::rat) powi a < 10 powi (adjusted x + 1)" using assms(1) b(2) by simp
  then have 1: "a < adjusted x + 1" by (rule pow10_less_imp)
  have "(10::rat) powi adjusted x < 10 powi (a + 1)" using assms(2) b(1) by simp
  then have 2: "adjusted x < a + 1" by (rule pow10_less_imp)
  from 1 2 show ?thesis by simp
qed


lemma round_half_even_of_int: "round_half_even (of_int n) = n"
  by (simp add: round_half_even_def)

lemma round_half_even_floor:
  "\<lfloor>y\<rfloor> \<le> round_half_even y \<and> round_half_even y \<le> \<lfloor>y\<rfloor> + 1"
  by (simp add: round_half_even_def Let_def)

lemma round_half_even_mono:
  assumes "x \<le> y"
  shows "round_half_even x \<le> round_half_even y"
proof (cases "\<lfloor>x\<rfloor> = \<lfloor>y\<rfloor>")
  case True
  have "x - of_int \<lfloor>x\<rfloor> \<le> y - of_int \<lfloor>y\<rfloor>" using assms True by simp
  then show ?thesis
    unfolding round_half_even_def Let_def True by auto
next
  case False
  have "\<lfloor>x\<rfloor> \<le> \<lfloor>y\<rfloor>" using assms by (rule floor_mono)
  with False have "\<lfloor>x\<rfloor> + 1 \<le> \<lfloor>y\<rfloor>" by simp
  with round_half_even_floor [of x] round_half_even_floor [of y] show ?thesis by linarith
qed

lemma pow10_add: "(10::rat) powi a * 10 powi b = 10 powi (a + b)"
  by (simp add: power_int_add)

lemma of_int_pow10: "(of_int (10 ^ n) :: rat) = 10 powi int n"
  by simp

lemma pow10_scale: "of_int (10 ^ p) * (10::rat) powi (a - (int p - 1)) = 10 powi (a + 1)"
proof -
  have "of_int (10 ^ p) * (10::rat) powi (a - (int p - 1)) = 10 powi (int p + (a - (int p - 1)))"
    by (simp only: of_int_pow10 pow10_add)
  also have "int p + (a - (int p - 1)) = a + 1" by simp
  finally show ?thesis .
qed

lemma scaled_bounds:
  assumes "x \<noteq> 0"
  shows "10 powi (int p - 1) \<le> \<bar>x / 10 powi (adjusted x - (int p - 1))\<bar>"
    and "\<bar>x / 10 powi (adjusted x - (int p - 1))\<bar> < 10 powi int p"
proof -
  let ?e = "adjusted x - (int p - 1)"
  have pos: "(0::rat) < 10 powi ?e" by simp
  have abs_eq: "\<bar>x / 10 powi ?e\<bar> = \<bar>x\<bar> / 10 powi ?e"
    using pos by (simp add: abs_divide)
  from adjusted_bounds [OF assms]
  have b: "10 powi adjusted x \<le> \<bar>x\<bar>" "\<bar>x\<bar> < 10 powi (adjusted x + 1)" by simp_all
  have "(10::rat) powi (int p - 1) = 10 powi adjusted x / 10 powi ?e"
    by (simp add: power_int_diff [symmetric])
  also have "\<dots> \<le> \<bar>x\<bar> / 10 powi ?e"
    using b(1) pos by (simp add: divide_right_mono)
  finally show "10 powi (int p - 1) \<le> \<bar>x / 10 powi ?e\<bar>" by (simp only: abs_eq)
  have "\<bar>x\<bar> / 10 powi ?e < 10 powi (adjusted x + 1) / 10 powi ?e"
    using b(2) pos by (simp add: divide_strict_right_mono)
  also have "\<dots> = 10 powi int p"
    by (simp add: power_int_diff [symmetric])
  finally show "\<bar>x / 10 powi ?e\<bar> < 10 powi int p" by (simp only: abs_eq)
qed

lemma round_to_pos_bounds:
  assumes "0 < p" "0 < x"
  shows "10 powi adjusted x \<le> round_to p x" and "round_to p x \<le> 10 powi (adjusted x + 1)"
proof -
  let ?e = "adjusted x - (int p - 1)"
  let ?y = "x / 10 powi ?e"
  have nz: "x \<noteq> 0" using assms(2) by simp
  have pos: "(0::rat) < 10 powi ?e" by simp
  have ypos: "0 < ?y" using assms(2) pos by simp
  have b: "10 powi (int p - 1) \<le> ?y" "?y < 10 powi int p"
    using scaled_bounds [OF nz, of p] unfolding abs_of_pos [OF ypos] by blast+
  have p1: "(10::rat) powi (int p - 1) = of_int (10 ^ (p - 1))"
    using assms(1) by (simp add: power_int_def nat_diff_distrib)
  have p2: "(10::rat) powi int p = of_int (10 ^ p)" by simp
  have "round_half_even (of_int (10 ^ (p - 1))) \<le> round_half_even ?y"
    using b(1) unfolding p1 by (rule round_half_even_mono)
  then have lo: "10 ^ (p - 1) \<le> round_half_even ?y" by (simp only: round_half_even_of_int)
  have "round_half_even ?y \<le> round_half_even (of_int (10 ^ p))"
    using b(2) unfolding p2 by (intro round_half_even_mono) simp
  then have hi: "round_half_even ?y \<le> 10 ^ p" by (simp only: round_half_even_of_int)
  have rt: "round_to p x = of_int (round_half_even ?y) * 10 powi ?e"
    using nz by (simp add: round_to_def Let_def)
  have "(10::rat) powi adjusted x = of_int (10 ^ (p - 1)) * 10 powi ?e"
    unfolding p1 [symmetric] by (simp add: power_int_add [symmetric])
  also have "\<dots> \<le> of_int (round_half_even ?y) * 10 powi ?e"
    using lo pos by (intro mult_right_mono) (simp_all only: of_int_le_iff less_imp_le)
  finally show "10 powi adjusted x \<le> round_to p x" by (simp only: rt)
  have "of_int (round_half_even ?y) * 10 powi ?e \<le> of_int (10 ^ p) * (10::rat) powi ?e"
    using hi pos by (intro mult_right_mono) (simp_all only: of_int_le_iff less_imp_le)
  also have "\<dots> = 10 powi (adjusted x + 1)"
    by (rule pow10_scale)
  finally show "round_to p x \<le> 10 powi (adjusted x + 1)" by (simp only: rt)
qed

lemma round_to_neg_bounds:
  assumes "0 < p" "x < 0"
  shows "round_to p x \<le> - (10 powi adjusted x)" and "- (10 powi (adjusted x + 1)) \<le> round_to p x"
proof -
  let ?e = "adjusted x - (int p - 1)"
  let ?y = "x / 10 powi ?e"
  have nz: "x \<noteq> 0" using assms(2) by simp
  have pos: "(0::rat) < 10 powi ?e" by simp
  have yneg: "?y < 0" using assms(2) pos by (simp add: divide_neg_pos)
  have b0: "10 powi (int p - 1) \<le> - ?y" "- ?y < 10 powi int p"
    using scaled_bounds [OF nz, of p] unfolding abs_of_neg [OF yneg] by blast+
  have b: "?y \<le> - (10 powi (int p - 1))" "- (10 powi int p) < ?y"
    using b0 by linarith+
  have p1: "- ((10::rat) powi (int p - 1)) = of_int (- (10 ^ (p - 1)))"
    using assms(1) by (simp add: power_int_def nat_diff_distrib)
  have p2: "- ((10::rat) powi int p) = of_int (- (10 ^ p))" by simp
  have "round_half_even ?y \<le> round_half_even (of_int (- (10 ^ (p - 1))))"
    using b(1) unfolding p1 by (rule round_half_even_mono)
  then have hi: "round_half_even ?y \<le> - (10 ^ (p - 1))" by (simp only: round_half_even_of_int)
  have "round_half_even (of_int (- (10 ^ p))) \<le> round_half_even ?y"
    using b(2) unfolding p2 by (intro round_half_even_mono) simp
  then have lo: "- (10 ^ p) \<le> round_half_even ?y" by (simp only: round_half_even_of_int)
  have rt: "round_to p x = of_int (round_half_even ?y) * 10 powi ?e"
    using nz by (simp add: round_to_def Let_def)
  have "of_int (round_half_even ?y) * 10 powi ?e \<le> of_int (- (10 ^ (p - 1))) * (10::rat) powi ?e"
    using hi pos by (intro mult_right_mono) (simp_all only: of_int_le_iff less_imp_le)
  also have "\<dots> = - (10 powi adjusted x)"
    unfolding p1 [symmetric] by (simp add: power_int_add [symmetric])
  finally show "round_to p x \<le> - (10 powi adjusted x)" by (simp only: rt)
  have "- ((10::rat) powi (adjusted x + 1)) = of_int (- (10 ^ p)) * 10 powi ?e"
    using pow10_scale [of p "adjusted x"] by simp
  also have "\<dots> \<le> of_int (round_half_even ?y) * 10 powi ?e"
    using lo pos by (intro mult_right_mono) (simp_all only: of_int_le_iff less_imp_le)
  finally show "- (10 powi (adjusted x + 1)) \<le> round_to p x" by (simp only: rt)
qed

lemma round_to_zero: "round_to p 0 = 0"
  by (simp add: round_to_def)

lemma round_to_pos: "0 < p \<Longrightarrow> 0 < x \<Longrightarrow> 0 < round_to p x"
  using round_to_pos_bounds(1) [of p x] zero_less_power_int [of "10::rat" "adjusted x"]
  by (simp del: zero_less_power_int)

lemma round_to_neg: "0 < p \<Longrightarrow> x < 0 \<Longrightarrow> round_to p x < 0"
  using round_to_neg_bounds(1) [of p x] zero_less_power_int [of "10::rat" "adjusted x"]
  by (simp del: zero_less_power_int)

lemma round_to_eq_0_iff: "0 < p \<Longrightarrow> round_to p x = 0 \<longleftrightarrow> x = 0"
  using round_to_pos [of p x] round_to_neg [of p x] round_to_zero [of p]
  by (cases "x = 0"; cases "0 < x") auto


lemma round_to_exact:
  assumes "\<bar>m\<bar> < 10 ^ p"
  shows "round_to p (of_int m * 10 powi k) = of_int m * 10 powi k"
proof (cases "m = 0")
  case True
  then show ?thesis by (simp add: round_to_zero)
next
  case False
  let ?x = "of_int m * (10::rat) powi k"
  let ?e = "adjusted ?x - (int p - 1)"
  have nz: "?x \<noteq> 0" using False by simp
  have absx: "\<bar>?x\<bar> = of_int \<bar>m\<bar> * 10 powi k"
    by (simp add: abs_mult)
  have "(of_int \<bar>m\<bar> :: rat) < of_int (10 ^ p)" using assms by (simp only: of_int_less_iff)
  then have "\<bar>?x\<bar> < of_int (10 ^ p) * 10 powi k"
    unfolding absx by (intro mult_strict_right_mono) simp_all
  also have "\<dots> = 10 powi (int p + k)" by (simp only: of_int_pow10 pow10_add)
  finally have up: "\<bar>?x\<bar> < 10 powi (int p + k)" .
  from adjusted_bounds [OF nz] have "10 powi adjusted ?x \<le> \<bar>?x\<bar>" by simp
  then have "(10::rat) powi adjusted ?x < 10 powi (int p + k)" using up by (rule le_less_trans)
  then have "adjusted ?x < int p + k" by (rule pow10_less_imp)
  then have ek: "?e \<le> k" by simp
  define j where "j = nat (k - ?e)"
  have kj: "k = int j + ?e" using ek by (simp add: j_def)
  have "(10::rat) powi k = 10 powi (int j + ?e)" using kj by simp
  also have "\<dots> = of_int (10 ^ j) * 10 powi ?e" by (simp only: of_int_pow10 pow10_add)
  finally have pk: "(10::rat) powi k = of_int (10 ^ j) * 10 powi ?e" .
  have pos: "(10::rat) powi ?e \<noteq> 0" by simp
  have "?x / 10 powi ?e = of_int m * of_int (10 ^ j) * 10 powi ?e / 10 powi ?e"
    by (subst pk) (simp only: mult.assoc)
  also have "\<dots> = of_int (m * 10 ^ j)" using pos by simp
  finally have sc: "?x / 10 powi ?e = of_int (m * 10 ^ j)" .
  have "round_to p ?x = of_int (round_half_even (?x / 10 powi ?e)) * 10 powi ?e"
    using nz by (simp add: round_to_def Let_def)
  also have "\<dots> = of_int (m * 10 ^ j) * 10 powi ?e"
    by (simp only: sc round_half_even_of_int)
  also have "\<dots> = of_int m * (of_int (10 ^ j) * 10 powi ?e)"
    by (simp only: of_int_mult mult.assoc)
  also have "\<dots> = ?x" by (simp only: pk [symmetric])
  finally show ?thesis .
qed

lemma round_to_of_int: "\<bar>m\<bar> < 10 ^ p \<Longrightarrow> round_to p (of_int m) = of_int m"
  using round_to_exact [of m p 0] by simp







lemma adjusted_scale:
  assumes "x \<noteq> 0"
  shows "adjusted (x * 10 powi k) = adjusted x + k"
proof (rule adjusted_unique)
  from adjusted_bounds [OF assms]
  have b: "10 powi adjusted x \<le> \<bar>x\<bar>" "\<bar>x\<bar> < 10 powi (adjusted x + 1)" by simp_all
  have ab: "\<bar>x * 10 powi k\<bar> = \<bar>x\<bar> * 10 powi k" by (simp add: abs_mult)
  have "(10::rat) powi (adjusted x + k) = 10 powi adjusted x * 10 powi k"
    by (simp only: pow10_add)
  also have "\<dots> \<le> \<bar>x\<bar> * 10 powi k"
    using b(1) by (intro mult_right_mono) simp_all
  finally show "10 powi (adjusted x + k) \<le> \<bar>x * 10 powi k\<bar>" by (simp only: ab)
  have "\<bar>x\<bar> * 10 powi k < 10 powi (adjusted x + 1) * 10 powi k"
    using b(2) by (intro mult_strict_right_mono) simp_all
  also have "\<dots> = 10 powi (adjusted x + k + 1)"
    by (simp only: pow10_add) (simp add: algebra_simps)
  finally show "\<bar>x * 10 powi k\<bar> < 10 powi (adjusted x + k + 1)" by (simp only: ab)
qed

lemma round_to_scale: "round_to p (x * 10 powi k) = round_to p x * 10 powi k"
proof (cases "x = 0")
  case True
  then show ?thesis by (simp add: round_to_zero)
next
  case False
  let ?e = "adjusted x - (int p - 1)"
  have nz: "x * 10 powi k \<noteq> 0" using False by simp
  have e: "adjusted (x * 10 powi k) - (int p - 1) = ?e + k"
    by (simp add: adjusted_scale [OF False])
  have pk: "(10::rat) powi (?e + k) = 10 powi ?e * 10 powi k" by (simp only: pow10_add)
  have q: "x * 10 powi k / 10 powi (?e + k) = x / 10 powi ?e"
    unfolding pk by simp
  have "round_to p (x * 10 powi k)
      = of_int (round_half_even (x * 10 powi k / 10 powi (?e + k))) * 10 powi (?e + k)"
    using nz by (simp only: round_to_def Let_def e if_False)
  also have "\<dots> = of_int (round_half_even (x / 10 powi ?e)) * (10 powi ?e * 10 powi k)"
    by (simp only: q) (simp only: pk)
  also have "\<dots> = round_to p x * 10 powi k"
    using False by (simp only: round_to_def Let_def if_False mult.assoc)
  finally show ?thesis .
qed

lemma round_half_even_near:
  assumes "\<bar>y - of_int n\<bar> < 1 / 2"
  shows "round_half_even y = n"
proof (cases "of_int n \<le> y")
  case True
  with assms have "\<lfloor>y\<rfloor> = n" by (intro floor_unique) linarith+
  with assms True show ?thesis by (simp add: round_half_even_def Let_def)
next
  case False
  with assms have f: "\<lfloor>y\<rfloor> = n - 1" by (intro floor_unique; simp; linarith)
  have "1 / 2 < y - of_int (n - 1)" using assms False by simp
  then show ?thesis unfolding round_half_even_def Let_def f by simp
qed

lemma round_to_near:
  assumes "10 powi a \<le> \<bar>x\<bar>" "\<bar>x\<bar> < 10 powi (a + 1)" "e = a - (int p - 1)"
    and "\<bar>x / 10 powi e - of_int n\<bar> < 1 / 2"
  shows "round_to p x = of_int n * 10 powi e"
proof -
  have "(0::rat) < 10 powi a" by simp
  then have "0 < \<bar>x\<bar>" using assms(1) by (rule less_le_trans)
  then have nz: "x \<noteq> 0" by simp
  have a: "adjusted x = a" using assms(1,2) by (rule adjusted_unique)
  show ?thesis
    using nz round_half_even_near [OF assms(4)]
    by (simp add: round_to_def Let_def a assms(3))
qed

section \<open>The operations at precision 28\<close>

lemma prec_pos: "0 < prec"
  by (simp add: prec_def)

lemma dec_round_zero: "dec_round 0 = 0"
  by (simp add: dec_round_def round_to_zero)

lemma dec_round_eq_0_iff: "dec_round x = 0 \<longleftrightarrow> x = 0"
  by (simp add: dec_round_def round_to_eq_0_iff prec_pos)

lemma dec_round_pos: "0 < x \<Longrightarrow> 0 < dec_round x"
  by (simp add: dec_round_def round_to_pos prec_pos)


lemma dec_round_scale: "dec_round (x * 10 powi k) = dec_round x * 10 powi k"
  by (simp add: dec_round_def round_to_scale)

lemma dec_round_exact:
  "\<bar>m\<bar> < 10 ^ 28 \<Longrightarrow> x = of_int m * 10 powi k \<Longrightarrow> dec_round x = x"
  by (simp add: dec_round_def prec_def round_to_exact)

lemma dec_round_near:
  assumes "10 powi a \<le> \<bar>x\<bar>" "\<bar>x\<bar> < 10 powi (a + 1)"
    and "\<bar>x / 10 powi (a - 27) - of_int n\<bar> < 1 / 2"
  shows "dec_round x = of_int n * 10 powi (a - 27)"
  unfolding dec_round_def prec_def
  by (rule round_to_near [OF assms(1,2) _ assms(3)]) simp

lemma first_branch_sample: "first_branch 230000000000000000 100000000000000000 = 65000000000000000077 / 500"
proof -
  have 1: "dec_sub UNIT 230000000000000000 = 770000000000000000"
    unfolding dec_sub_def UNIT_def WAD_def
    by (rule trans [OF dec_round_exact [of 770000000000000000 _ 0]]) simp_all
  have 2: "dec_divide 770000000000000000 5000000000000000000 = 154 / 1000"
    unfolding dec_divide_def
    by (rule trans [OF dec_round_exact [of 154 _ "-3"]]) simp_all
  have 3: "dec_add (154 / 1000) 230000000000000000 = 230000000000000000154 / 1000"
    unfolding dec_add_def
    by (rule trans [OF dec_round_exact [of 230000000000000000154 _ "-3"]]) simp_all
  have 4: "dec_sub (230000000000000000154 / 1000) 100000000000000000 = 65000000000000000077 / 500"
    unfolding dec_sub_def
    by (rule trans [OF dec_round_exact [of 130000000000000000154 _ "-3"]]) simp_all
  show ?thesis
    unfolding first_branch_def by (simp only: 1 2 3 4)
qed

lemma first_branch_near_one: "first_branch 999999999999999999 999999999999999999 = 0"
proof -
  have 1: "dec_sub UNIT 999999999999999999 = 1"
    unfolding dec_sub_def UNIT_def WAD_def
    by (rule trans [OF dec_round_exact [of 1 _ 0]]) simp_all
  have 2: "dec_divide 1 5000000000000000000 = 2 / 10 ^ 19"
    unfolding dec_divide_def
    by (rule trans [OF dec_round_exact [of 2 _ "-19"]]) simp_all
  have 3: "dec_add (2 / 10 ^ 19) 999999999999999999 = 999999999999999999"
    unfolding dec_add_def
    by (rule trans [OF dec_round_near [of 17 _ 9999999999999999990000000000]]) simp_all
  have 4: "dec_sub 999999999999999999 999999999999999999 = 0"
    unfolding dec_sub_def by (simp add: dec_round_zero)
  show ?thesis
    unfolding first_branch_def by (simp only: 1 2 3 4)
qed


lemma of_int_pow10_nat: "(of_int (10 ^ n) :: rat) = 10 powi int n"
  by simp

lemma to_wad_exact:
  assumes "dec_round (of_int x) = of_int x"
  shows "to_wad x d = of_int x * 10 powi (18 - d)"
proof -
  consider "d < 18" | "18 < d" | "d = 18" by linarith
  then show ?thesis
  proof cases
    case 1
    have k: "int (nat (18 - d)) = 18 - d" using 1 by simp
    have "to_wad x d = dec_round (of_int x * 10 powi int (nat (18 - d)))"
      using 1 by (simp only: to_wad_def Let_def dec_mul_def of_int_pow10_nat if_True)
    then show ?thesis by (simp only: dec_round_scale assms k)
  next
    case 2
    have n1: "\<not> d < 18" using 2 by simp
    have k: "- int (nat (d - 18)) = 18 - d" using 2 by simp
    have dv: "(of_int x :: rat) / 10 powi int (nat (d - 18)) = of_int x * 10 powi (18 - d)"
      unfolding k [symmetric] by (simp add: power_int_minus divide_inverse)
    have "to_wad x d = dec_round (of_int x / 10 powi int (nat (d - 18)))"
      using 2 n1
      by (simp only: to_wad_def Let_def dec_divide_def of_int_pow10_nat if_True if_False)
    then show ?thesis by (simp only: dv dec_round_scale assms)
  next
    case 3
    then show ?thesis by (simp add: to_wad_def)
  qed
qed

lemma from_wad_exact:
  assumes "dec_round x = x"
  shows "from_wad (x * 10 powi (18 - d)) d = x"
proof -
  consider "d < 18" | "18 < d" | "d = 18" by linarith
  then show ?thesis
  proof cases
    case 1
    have k: "int (nat (18 - d)) = 18 - d" using 1 by simp
    have "from_wad (x * 10 powi (18 - d)) d
        = dec_round (x * 10 powi (18 - d) / 10 powi int (nat (18 - d)))"
      using 1 by (simp only: from_wad_def dec_divide_def of_int_pow10_nat if_True)
    also have "x * 10 powi (18 - d) / 10 powi int (nat (18 - d)) = x"
      unfolding k by simp
    finally show ?thesis by (simp only: assms)
  next
    case 2
    have n1: "\<not> d < 18" using 2 by simp
    have k: "int (nat (d - 18)) = - (18 - d)" using 2 by simp
    have "from_wad (x * 10 powi (18 - d)) d
        = dec_round (x * 10 powi (18 - d) * 10 powi int (nat (d - 18)))"
      using 2 n1 by (simp only: from_wad_def dec_mul_def of_int_pow10_nat if_True if_False)
    also have "x * 10 powi (18 - d) * 10 powi int (nat (d - 18)) = x"
    proof -
      have "(10::rat) powi (18 - d) * 10 powi (- (18 - d)) = 1"
        by (simp only: pow10_add) simp
      then show ?thesis unfolding k by (simp only: mult.assoc mult_1_right)
    qed
    finally show ?thesis by (simp only: assms)
  next
    case 3
    then show ?thesis by (simp add: from_wad_def)
  qed
qed

lemma to_wad_15_19: "to_wad 15 19 = 3 / 2"
proof -
  have "dec_divide 15 10 = 3 / 2"
    unfolding dec_divide_def
    by (rule trans [OF dec_round_exact [of 15 _ "-1"]]) simp_all
  then show ?thesis by (simp add: to_wad_def)
qed

lemma to_wad_rounds: "to_wad 10000000000000000000000000006 19 = 1000000000000000000000000001"
proof -
  have "dec_divide 10000000000000000000000000006 10 = 1000000000000000000000000001"
    unfolding dec_divide_def
    by (rule trans [OF dec_round_near [of 27 _ 1000000000000000000000000001]]) simp_all
  then show ?thesis by (simp add: to_wad_def)
qed

lemma round_half_even_error: "\<bar>of_int (round_half_even y) - y\<bar> \<le> 1 / 2"
proof -
  have "of_int \<lfloor>y\<rfloor> \<le> y" "y < of_int \<lfloor>y\<rfloor> + 1" by linarith+
  then show ?thesis
    unfolding round_half_even_def Let_def by (auto simp: abs_le_iff)
qed

lemma round_to_error:
  assumes "0 < p"
  shows "\<bar>round_to p x - x\<bar> \<le> \<bar>x\<bar> * 10 powi (1 - int p) / 2"
proof (cases "x = 0")
  case True
  then show ?thesis by (simp add: round_to_zero)
next
  case False
  let ?e = "adjusted x - (int p - 1)"
  let ?y = "x / 10 powi ?e"
  have pos: "(0::rat) < 10 powi ?e" by simp
  have x: "x = ?y * 10 powi ?e" by simp
  have "round_to p x - x = (of_int (round_half_even ?y) - ?y) * 10 powi ?e"
    using False by (simp add: round_to_def Let_def algebra_simps)
  then have "\<bar>round_to p x - x\<bar> = \<bar>of_int (round_half_even ?y) - ?y\<bar> * 10 powi ?e"
    by (simp only: abs_mult) simp
  also have "\<dots> \<le> 1 / 2 * 10 powi ?e"
    using round_half_even_error [of ?y] pos by (intro mult_right_mono) simp_all
  also have "(10::rat) powi ?e = 10 powi adjusted x * 10 powi (1 - int p)"
    by (simp only: pow10_add) (simp add: algebra_simps)
  also have "1 / 2 * (10 powi adjusted x * 10 powi (1 - int p))
      \<le> 1 / 2 * (\<bar>x\<bar> * 10 powi (1 - int p))"
    using adjusted_bounds [OF False] by (intro mult_left_mono mult_right_mono) simp_all
  finally show ?thesis by simp
qed

lemma dec_round_error: "\<bar>dec_round x - x\<bar> \<le> \<bar>x\<bar> * (1 / (2 * 10 ^ 27))"
  using round_to_error [of 28 x] by (simp add: dec_round_def prec_def)

lemma mul_div_error:
  assumes "q \<noteq> 0"
  shows "\<bar>dec_round (dec_round x / q) - x / q\<bar> \<le> \<bar>x / q\<bar> * (11 / 10 ^ 28)"
proof -
  define d :: rat where "d = 1 / (2 * 10 ^ 27)"
  define P where "P = dec_round x"
  define z where "z = \<bar>x\<bar> / \<bar>q\<bar>"
  have qpos: "0 < \<bar>q\<bar>" using assms by simp
  have z0: "0 \<le> z" by (simp add: z_def)
  have h1: "\<bar>P - x\<bar> \<le> \<bar>x\<bar> * d" unfolding P_def d_def by (rule dec_round_error)
  have h2: "\<bar>dec_round (P / q) - P / q\<bar> \<le> \<bar>P / q\<bar> * d"
    unfolding d_def by (rule dec_round_error)
  have "\<bar>P\<bar> \<le> \<bar>x\<bar> + \<bar>x\<bar> * d" using h1 by linarith
  then have "\<bar>P\<bar> / \<bar>q\<bar> \<le> (\<bar>x\<bar> + \<bar>x\<bar> * d) / \<bar>q\<bar>"
    using qpos by (intro divide_right_mono) simp_all
  then have pq: "\<bar>P / q\<bar> \<le> z + z * d"
    by (simp add: z_def abs_divide add_divide_distrib)
  have "\<bar>P / q - x / q\<bar> = \<bar>P - x\<bar> / \<bar>q\<bar>"
    by (simp add: diff_divide_distrib [symmetric] abs_divide)
  also have "\<dots> \<le> \<bar>x\<bar> * d / \<bar>q\<bar>"
    using h1 qpos by (intro divide_right_mono) simp_all
  finally have dq: "\<bar>P / q - x / q\<bar> \<le> z * d" by (simp add: z_def)
  have dpos: "0 \<le> d" by (simp add: d_def)
  have "\<bar>P / q\<bar> * d \<le> (z + z * d) * d" using pq dpos by (rule mult_right_mono)
  with h2 have "\<bar>dec_round (P / q) - P / q\<bar> \<le> (z + z * d) * d" by linarith
  with dq have "\<bar>dec_round (P / q) - x / q\<bar> \<le> (z + z * d) * d + z * d" by linarith
  also have "\<dots> = z * (d + d * d + d)" by (simp add: algebra_simps)
  also have "\<dots> \<le> z * (11 / 10 ^ 28)"
    using z0 by (intro mult_left_mono) (simp_all add: d_def)
  finally show ?thesis by (simp add: P_def z_def abs_divide)
qed

lemma to_wad_value:
  "to_wad x d = (if d = 18 then of_int x else round_to 28 (of_int x * 10 powi (18 - d)))"
proof -
  consider "d < 18" | "18 < d" | "d = 18" by linarith
  then show ?thesis
  proof cases
    case 1
    have k: "int (nat (18 - d)) = 18 - d" using 1 by simp
    have "to_wad x d = dec_round (of_int x * 10 powi int (nat (18 - d)))"
      using 1 by (simp only: to_wad_def Let_def dec_mul_def of_int_pow10_nat if_True)
    then show ?thesis using 1 by (simp add: k dec_round_def prec_def)
  next
    case 2
    have n1: "\<not> d < 18" using 2 by simp
    have k: "- int (nat (d - 18)) = 18 - d" using 2 by simp
    have dv: "(of_int x :: rat) / 10 powi int (nat (d - 18)) = of_int x * 10 powi (18 - d)"
      unfolding k [symmetric] by (simp add: power_int_minus divide_inverse)
    have "to_wad x d = dec_round (of_int x / 10 powi int (nat (d - 18)))"
      using 2 n1
      by (simp only: to_wad_def Let_def dec_divide_def of_int_pow10_nat if_True if_False)
    then have "to_wad x d = round_to 28 (of_int x * 10 powi (18 - d))"
      by (simp only: dv dec_round_def prec_def)
    then show ?thesis using 2 by simp
  next
    case 3
    then show ?thesis by (simp add: to_wad_def)
  qed
qed

section \<open>Quoting and validation: errors and effects\<close>

lemmas token_defs = USDe_def USDC_def USDT_def cmETH_def mETH_def WETH_def
  stable_account_def variant_account_def

text \<open>
  Claim C4, as the code has it. In a pool that is not a stable pool, with both assets
  registered in the same aggregate account: a missing price on either asset makes
  \<open>quote_swap\<close> fail with \<open>PriceNotSet\<close>; with both prices set, a zero price makes it
  fail with \<open>ZeroPrice\<close>; otherwise the ideal destination amount is the canonical source
  amount times the source price, rounded to 28 significant digits, divided by the
  destination price, rounded again. It differs from the exact quotient by at most a
  relative \<open>1.1 * 10\<^sup>-\<^sup>2\<^sup>7\<close>, and it is the amount the rest of \<open>quote_swap\<close> works with:
  the cash check, the destination's solvency score, the gross amount and the haircut.
\<close>

theorem variant_ideal_amount:
  assumes "pool_type (config self) \<noteq> ''stable''"
    and "assets self from_token = Some fa" and "assets self to_token = Some ta"
    and "aggregate_account fa = aggregate_account ta"
  shows "(price_wad fa = None \<or> price_wad ta = None \<longrightarrow>
            quote_swap self from_token to_token amt = Inl PriceNotSet)
       \<and> (\<forall>p q. price_wad fa = Some p \<and> price_wad ta = Some q \<and> (p = 0 \<or> q = 0) \<longrightarrow>
            quote_swap self from_token to_token amt = Inl ZeroPrice)
       \<and> (\<forall>p q w ideal.
            price_wad fa = Some p \<and> price_wad ta = Some q \<and> p \<noteq> 0 \<and> q \<noteq> 0
            \<and> w = (if underlying_token_decimals fa = 18 then of_int amt
                   else round_to 28 (of_int amt * 10 powi (18 - underlying_token_decimals fa)))
            \<and> ideal = round_to 28 (round_to 28 (w * p) / q) \<longrightarrow>
            quote_ideal_to_amount fa ta w = Inr ideal
          \<and> \<bar>ideal - w * p / q\<bar> \<le> \<bar>w * p / q\<bar> * (11 / 10 ^ 28)
          \<and> quote_swap self from_token to_token amt
              = (if cash ta < ideal then Inl InsufficientCash
                 else case solvency_score (r_threshold (config self)) (cash fa)
                             (liability fa) w True of
                        Inl e \<Rightarrow> Inl e
                      | Inr solvency_from \<Rightarrow>
                          (case solvency_score (r_threshold (config self)) (cash ta)
                                  (liability ta) ideal False of
                             Inl e \<Rightarrow> Inl e
                           | Inr solvency_to \<Rightarrow>
                               Inr (dec_to_int (from_wad
                                      (dec_sub
                                         (compute_to_amount (dec_mul solvency_from UNIT)
                                            (dec_mul solvency_to UNIT) ideal)
                                         (haircut
                                            (compute_to_amount (dec_mul solvency_from UNIT)
                                               (dec_mul solvency_to UNIT) ideal)
                                            (haircut_rate (config self))))
                                      (underlying_token_decimals ta)),
                                    dec_to_int (from_wad
                                      (haircut
                                         (compute_to_amount (dec_mul solvency_from UNIT)
                                            (dec_mul solvency_to UNIT) ideal)
                                         (haircut_rate (config self)))
                                      (underlying_token_decimals ta))))))"
proof (intro conjI allI impI)
  assume "price_wad fa = None \<or> price_wad ta = None"
  then show "quote_swap self from_token to_token amt = Inl PriceNotSet"
    using assms
    by (auto simp: quote_swap_def quote_swap_internal_def quote_ideal_to_amount_def
        Let_def split: option.splits)
next
  fix p q
  assume "price_wad fa = Some p \<and> price_wad ta = Some q \<and> (p = 0 \<or> q = 0)"
  then show "quote_swap self from_token to_token amt = Inl ZeroPrice"
    using assms
    by (auto simp: quote_swap_def quote_swap_internal_def quote_ideal_to_amount_def
        convert_token_amount_def Let_def)
next
  fix p q w ideal
  assume h: "price_wad fa = Some p \<and> price_wad ta = Some q \<and> p \<noteq> 0 \<and> q \<noteq> 0
    \<and> w = (if underlying_token_decimals fa = 18 then of_int amt
           else round_to 28 (of_int amt * 10 powi (18 - underlying_token_decimals fa)))
    \<and> ideal = round_to 28 (round_to 28 (w * p) / q)"
  then have w: "to_wad amt (underlying_token_decimals fa) = w"
    by (simp only: to_wad_value)
  from h have ideal: "ideal = dec_divide (dec_mul w p) q"
    by (simp add: dec_divide_def dec_mul_def dec_round_def prec_def)
  show qi: "quote_ideal_to_amount fa ta w = Inr ideal"
    using h ideal by (simp add: quote_ideal_to_amount_def convert_token_amount_def)
  from h have "q \<noteq> 0" by simp
  from mul_div_error [OF this, of "w * p"]
  show "\<bar>ideal - w * p / q\<bar> \<le> \<bar>w * p / q\<bar> * (11 / 10 ^ 28)"
    by (simp add: ideal dec_divide_def dec_mul_def)
  show "quote_swap self from_token to_token amt
      = (if cash ta < ideal then Inl InsufficientCash
         else case solvency_score (r_threshold (config self)) (cash fa)
                     (liability fa) w True of
                Inl e \<Rightarrow> Inl e
              | Inr solvency_from \<Rightarrow>
                  (case solvency_score (r_threshold (config self)) (cash ta)
                          (liability ta) ideal False of
                     Inl e \<Rightarrow> Inl e
                   | Inr solvency_to \<Rightarrow>
                       Inr (dec_to_int (from_wad
                              (dec_sub
                                 (compute_to_amount (dec_mul solvency_from UNIT)
                                    (dec_mul solvency_to UNIT) ideal)
                                 (haircut
                                    (compute_to_amount (dec_mul solvency_from UNIT)
                                       (dec_mul solvency_to UNIT) ideal)
                                    (haircut_rate (config self))))
                              (underlying_token_decimals ta)),
                            dec_to_int (from_wad
                              (haircut
                                 (compute_to_amount (dec_mul solvency_from UNIT)
                                    (dec_mul solvency_to UNIT) ideal)
                                 (haircut_rate (config self)))
                              (underlying_token_decimals ta)))))"
    using assms qi
    by (simp add: quote_swap_def quote_swap_internal_def w Let_def split: sum.splits)
qed

text \<open>
  Claim C6, as the code has it. \<open>validate_swap\<close> never fails: it returns true exactly when
  the body of its \<^verbatim>\<open>try\<close> returns true, and false on every other outcome of the body,
  every error included (\<open>PriceNotSet\<close> and \<open>ZeroPrice\<close> among them).
\<close>

theorem validate_swap_total:
  "validate_swap self from_token to_token amt
     = Inr (validate_swap_body self from_token to_token amt = Inr True)"
  by (cases "validate_swap_body self from_token to_token amt") (auto simp: validate_swap_def)

text \<open>
  Claim C7. \<open>validate_swap\<close> returns false, and does not fail, when the requested amount is
  zero or negative, when either token has no registered asset, and when the ideal
  destination amount exceeds the destination asset's cash.
\<close>

theorem validate_swap_false_cases:
  "(amt \<le> 0 \<longrightarrow> validate_swap self from_token to_token amt = Inr False)
   \<and> (assets self from_token = None \<or> assets self to_token = None \<longrightarrow>
        validate_swap self from_token to_token amt = Inr False)
   \<and> (\<forall>fa ta ideal.
         assets self from_token = Some fa \<and> assets self to_token = Some ta
         \<and> (if pool_type (config self) = ''stable''
             then Inr (to_wad amt (underlying_token_decimals fa))
             else quote_ideal_to_amount fa ta (to_wad amt (underlying_token_decimals fa)))
            = Inr ideal
         \<and> cash ta < ideal \<longrightarrow>
        validate_swap self from_token to_token amt = Inr False)"
  by (auto simp: validate_swap_def validate_swap_body_def Let_def
      split: option.splits sum.splits if_splits)

text \<open>
  Every step of a read-only body leaves the object as it was, and the result of each
  method is the value of the corresponding function of the object.
\<close>

lemma bind_m_pure:
  assumes "m self = (r, self)"
  shows "bind_m m f self = (case r of Inl e \<Rightarrow> (Inl e, self) | Inr v \<Rightarrow> f v self)"
  using assms by (simp add: bind_m_def split: sum.splits)

lemma result_m_eq: "result_m r self = (r, self)"
  by (cases r) (simp_all add: result_m_def raise_m_def return_m_def)

lemma solvency_score_m_eq:
  "solvency_score_m t c l ch b self = (solvency_score t c l ch b, self)"
  by (simp add: solvency_score_m_def solvency_score_def Let_def solvency_curve_integral_m_def
      bind_m_pure [OF result_m_eq] result_m_eq raise_m_def return_m_def split: sum.splits)

lemma quote_ideal_to_amount_m_eq:
  "quote_ideal_to_amount_m fa ta w self = (quote_ideal_to_amount fa ta w, self)"
  by (simp add: quote_ideal_to_amount_m_def quote_ideal_to_amount_def
      convert_token_amount_m_def result_m_eq raise_m_def split: option.splits)

lemma quote_swap_internal_m_eq:
  "quote_swap_internal_m fa ta w self = (quote_swap_internal self fa ta w, self)"
  by (simp add: quote_swap_internal_m_def quote_swap_internal_def Let_def bind_m_def read_m_def
      return_m_def raise_m_def quote_ideal_to_amount_m_eq solvency_score_m_eq
      compute_to_amount_m_def haircut_m_def split: sum.splits)

lemma quote_swap_m_eq:
  "quote_swap_m from_token to_token amt self = (quote_swap self from_token to_token amt, self)"
  by (simp add: quote_swap_m_def quote_swap_def Let_def bind_m_def read_m_def return_m_def
      raise_m_def to_wad_m_def from_wad_m_def quote_swap_internal_m_eq
      split: option.splits sum.splits prod.splits)

lemma validate_swap_m_eq:
  "validate_swap_m from_token to_token amt self
     = (validate_swap self from_token to_token amt, self)"
  by (simp add: validate_swap_m_def validate_swap_def validate_swap_body_def Let_def
      except_m_def bind_m_def read_m_def return_m_def to_wad_m_def quote_ideal_to_amount_m_eq
      split: option.splits sum.splits)

text \<open>
  Claim C8. \<open>quote_swap\<close> and \<open>validate_swap\<close>, run statement by statement on the pool
  object, leave the object as it was, whether they return or raise, and so do the two read
  accessors; their results are those of the functions above. The two state-sync
  operations are the ones that assign: \<open>update_asset_state\<close> leaves the object unchanged
  only if the entry and the asset address it stores are the ones already there, and
  \<open>update_asset_price\<close> only if the token is unknown or already has that price.
\<close>

theorem quotes_leave_pool_unchanged:
  "snd (quote_swap_m from_token to_token amt self) = self
   \<and> fst (quote_swap_m from_token to_token amt self) = quote_swap self from_token to_token amt
   \<and> snd (validate_swap_m from_token to_token amt self) = self
   \<and> fst (validate_swap_m from_token to_token amt self)
       = validate_swap self from_token to_token amt
   \<and> get_asset_state_m token self = (Inr (assets self token), self)
   \<and> snd (is_stable_asset_m token self) = self
   \<and> (snd (update_asset_state self token asset_address cash_in liability_in decimals account
              values_in_wad price_in) = self
        \<longleftrightarrow> assets self token
              = Some \<lparr>token_address = token,
                      cash = (if values_in_wad then of_int cash_in else to_wad cash_in decimals),
                      liability = (if values_in_wad then of_int liability_in
                                   else to_wad liability_in decimals),
                      underlying_token_decimals = decimals, aggregate_account = account,
                      price_wad = map_option of_int price_in\<rparr>
            \<and> asset_addresses self token = Some asset_address)
   \<and> (snd (update_asset_price self token new_price) = self
        \<longleftrightarrow> (case assets self token of
               None \<Rightarrow> True
             | Some asset \<Rightarrow> price_wad asset = Some (of_int new_price)))"
proof -
  have upd: "self\<lparr>assets := a, asset_addresses := b\<rparr> = self
      \<longleftrightarrow> a = assets self \<and> b = asset_addresses self" for a b
    by (cases self) auto
  have upd1: "self\<lparr>assets := a\<rparr> = self \<longleftrightarrow> a = assets self" for a
    by (cases self) auto
  have st: "snd (update_asset_state self token asset_address cash_in liability_in decimals account
              values_in_wad price_in) = self
        \<longleftrightarrow> assets self token
              = Some \<lparr>token_address = token,
                      cash = (if values_in_wad then of_int cash_in else to_wad cash_in decimals),
                      liability = (if values_in_wad then of_int liability_in
                                   else to_wad liability_in decimals),
                      underlying_token_decimals = decimals, aggregate_account = account,
                      price_wad = map_option of_int price_in\<rparr>
            \<and> asset_addresses self token = Some asset_address"
    by (simp add: update_asset_state_def Let_def upd fun_upd_idem_iff)
  have pr: "snd (update_asset_price self token new_price) = self
        \<longleftrightarrow> (case assets self token of
               None \<Rightarrow> True
             | Some asset \<Rightarrow> price_wad asset = Some (of_int new_price))"
  proof (cases "assets self token")
    case None
    then show ?thesis by (simp add: update_asset_price_def)
  next
    case (Some asset)
    have "asset = asset\<lparr>price_wad := Some (of_int new_price)\<rparr>
        \<longleftrightarrow> price_wad asset = Some (of_int new_price)"
      by (cases asset) auto
    then show ?thesis
      using Some by (simp add: update_asset_price_def upd1 fun_upd_idem_iff)
  qed
  show ?thesis
    using st pr
    by (simp add: quote_swap_m_eq validate_swap_m_eq get_asset_state_m_def is_stable_asset_m_def
        bind_m_def read_m_def return_m_def)
qed

text \<open>No step of the pipeline other than the cash check reports insufficient cash.\<close>

lemma dec_div_not_cash: "dec_div x y \<noteq> Inl InsufficientCash"
  by (simp add: dec_div_def)

lemma integral_not_cash: "solvency_curve_integral t r \<noteq> Inl InsufficientCash"
  by (simp add: solvency_curve_integral_def second_branch_def dec_div_not_cash)

lemma score_not_cash: "solvency_score t c l ch b \<noteq> Inl InsufficientCash"
  by (auto simp: solvency_score_def Let_def integral_not_cash dec_div_not_cash
      split: sum.splits)

lemma ideal_not_cash: "quote_ideal_to_amount fa ta a \<noteq> Inl InsufficientCash"
  by (auto simp: quote_ideal_to_amount_def convert_token_amount_def split: option.splits)

text \<open>
  Claim C5, as the code has it. \<open>quote_swap\<close> fails with \<open>InsufficientCash\<close> exactly when
  both assets are registered in the same aggregate account and the destination's cash is
  below the ideal amount. It has no check on the sign of the net amount: a net amount below
  zero is returned.
\<close>

theorem insufficient_cash_iff:
  "quote_swap self from_token to_token amt = Inl InsufficientCash \<longleftrightarrow>
     (\<exists>fa ta ideal.
        assets self from_token = Some fa \<and> assets self to_token = Some ta
        \<and> aggregate_account fa = aggregate_account ta
        \<and> (if pool_type (config self) = ''stable''
            then Inr (to_wad amt (underlying_token_decimals fa))
            else quote_ideal_to_amount fa ta (to_wad amt (underlying_token_decimals fa)))
           = Inr ideal
        \<and> cash ta < ideal)"
  using score_not_cash ideal_not_cash
  by (auto simp: quote_swap_def quote_swap_internal_def Let_def
      split: option.splits sum.splits if_splits prod.splits)


lemma weth_ideal:
  "dec_divide (dec_mul 10000000000000000000 1000000000000000000) 1072690000000000000
     = 9322357810737491726407442970 / 10 ^ 9"
proof -
  have 1: "dec_mul 10000000000000000000 1000000000000000000 = 10 ^ 37"
    unfolding dec_mul_def
    by (rule trans [OF dec_round_exact [of 1 _ 37]]) simp_all
  have 2: "dec_divide (10 ^ 37) 1072690000000000000 = 9322357810737491726407442970 / 10 ^ 9"
    unfolding dec_divide_def
    by (rule trans [OF dec_round_near [of 18 _ 9322357810737491726407442970]]) simp_all
  show ?thesis by (simp only: 1 2)
qed

text \<open>
  Claim C4 fails as stated on the variant pool of the module: for 10 WETH into cmETH the
  ideal amount is 9322357810737491726.407442970, the quotient rounded to 28 significant
  digits, not the quotient \<open>10 / 1.07269\<close> in WAD itself.
\<close>

theorem ideal_amount_is_rounded:
  "quote_ideal_to_amount (the (assets variant_pool WETH)) (the (assets variant_pool cmETH))
      (to_wad 10000000000000000000 18)
     = Inr (9322357810737491726407442970 / 10 ^ 9)
   \<and> (9322357810737491726407442970 / 10 ^ 9 :: rat)
       \<noteq> 10000000000000000000 * 1000000000000000000 / 1072690000000000000"
  using weth_ideal
  by (simp add: quote_ideal_to_amount_def convert_token_amount_def variant_pool_def token_defs
      to_wad_def)

text \<open>Claim C4 on the variant pool of the module: 10 WETH for cmETH.\<close>

theorem variant_ideal_amount_witness:
  "pool_type (config variant_pool) \<noteq> ''stable''
   \<and> (\<exists>fa ta. assets variant_pool WETH = Some fa \<and> assets variant_pool cmETH = Some ta
        \<and> aggregate_account fa = aggregate_account ta
        \<and> price_wad fa = Some 1000000000000000000 \<and> price_wad ta = Some 1072690000000000000
        \<and> underlying_token_decimals fa = 18
        \<and> quote_ideal_to_amount fa ta 10000000000000000000
            = Inr (round_to 28 (round_to 28 (10000000000000000000 * 1000000000000000000)
                     / 1072690000000000000)))"
proof -
  define fa where "fa = the (assets variant_pool WETH)"
  define ta where "ta = the (assets variant_pool cmETH)"
  have h1: "pool_type (config variant_pool) \<noteq> ''stable''" by (simp add: variant_pool_def)
  have h2: "assets variant_pool WETH = Some fa" by (simp add: fa_def variant_pool_def token_defs)
  have h3: "assets variant_pool cmETH = Some ta" by (simp add: ta_def variant_pool_def token_defs)
  have h4: "aggregate_account fa = aggregate_account ta"
    by (simp add: fa_def ta_def variant_pool_def token_defs)
  have p1: "price_wad fa = Some 1000000000000000000"
    by (simp add: fa_def variant_pool_def token_defs)
  have p2: "price_wad ta = Some 1072690000000000000"
    by (simp add: ta_def variant_pool_def token_defs)
  have d: "underlying_token_decimals fa = 18"
    by (simp add: fa_def variant_pool_def token_defs)
  note t = variant_ideal_amount [OF h1 h2 h3 h4, of 10000000000000000000]
  from conjunct2 [OF conjunct2 [OF t]] p1 p2 d
  have "quote_ideal_to_amount fa ta 10000000000000000000
      = Inr (round_to 28 (round_to 28 (10000000000000000000 * 1000000000000000000)
               / 1072690000000000000))"
    by simp
  with h1 h2 h3 h4 p1 p2 d show ?thesis by blast
qed

text \<open>Claim C7 on the stable pool of the module.\<close>

theorem validate_swap_false_cases_witness:
  "validate_swap stable_pool USDe USDC 0 = Inr False
   \<and> validate_swap stable_pool USDe USDC (- 5) = Inr False
   \<and> assets stable_pool WETH = None
   \<and> validate_swap stable_pool WETH USDC 1000000 = Inr False
   \<and> cash (the (assets stable_pool USDC)) < to_wad 30000000000000000000000 18
   \<and> validate_swap stable_pool USDe USDC 30000000000000000000000 = Inr False"
proof -
  have a: "validate_swap stable_pool USDe USDC 0 = Inr False"
    using validate_swap_false_cases [where amt = 0] by simp
  have b: "validate_swap stable_pool USDe USDC (- 5) = Inr False"
    using validate_swap_false_cases [where amt = "- 5"] by simp
  have n: "assets stable_pool WETH = None" by (simp add: stable_pool_def token_defs)
  have c: "validate_swap stable_pool WETH USDC 1000000 = Inr False"
    using validate_swap_false_cases [where self = stable_pool and from_token = WETH] n by simp
  define fa where "fa = the (assets stable_pool USDe)"
  define ta where "ta = the (assets stable_pool USDC)"
  have fa: "assets stable_pool USDe = Some fa"
    by (simp add: fa_def stable_pool_def token_defs)
  have ta: "assets stable_pool USDC = Some ta"
    by (simp add: ta_def stable_pool_def token_defs)
  have lt: "cash (the (assets stable_pool USDC)) < to_wad 30000000000000000000000 18"
    by (simp add: stable_pool_def token_defs to_wad_def)
  have id: "(if pool_type (config stable_pool) = ''stable''
             then Inr (to_wad 30000000000000000000000 (underlying_token_decimals fa))
             else quote_ideal_to_amount fa ta
                    (to_wad 30000000000000000000000 (underlying_token_decimals fa)))
            = (Inr (to_wad 30000000000000000000000 18) :: error + decimal)"
    by (simp add: fa_def stable_pool_def token_defs)
  have lt': "cash ta < to_wad 30000000000000000000000 18"
    using lt by (simp add: ta_def)
  have d: "validate_swap stable_pool USDe USDC 30000000000000000000000 = Inr False"
    using validate_swap_false_cases [where self = stable_pool and from_token = USDe
        and to_token = USDC and amt = 30000000000000000000000] fa ta id lt'
    by blast
  from a b n c lt d show ?thesis by simp
qed

text \<open>
  Claim C6 fails as stated: with an unpriced asset in a variant pool the quote fails with
  \<open>PriceNotSet\<close>, and \<open>validate_swap\<close> returns false.
\<close>

theorem validate_swap_masks_price_error:
  "quote_swap unpriced_pool USDe WETH 1 = Inl PriceNotSet
   \<and> validate_swap unpriced_pool USDe WETH 1 = Inr False"
  by (simp add: quote_swap_def quote_swap_internal_def validate_swap_def validate_swap_body_def
      quote_ideal_to_amount_def unpriced_pool_def update_asset_state_def variant_pool_def
      token_defs to_wad_def Let_def)

section \<open>Decimal scaling\<close>

text \<open>
  Claim C3, as the code has it. For every integer amount \<open>x\<close> of at most 28 digits and
  every decimal count \<open>d\<close> at most 999972 away from 18 (the range in which no product or
  quotient leaves the exponent range of the Decimal context), \<open>to_wad\<close> scales by the exact
  power of ten, keeping every fractional digit when it scales down, and \<open>from_wad\<close> gives
  \<open>x\<close> back.
\<close>

theorem wad_round_trip:
  assumes "\<bar>x\<bar> < 10 ^ 28" and "\<bar>18 - d\<bar> \<le> 999972"
  shows "to_wad x d = of_int x * 10 powi (18 - d) \<and> from_wad (to_wad x d) d = of_int x"
proof -
  have r: "dec_round (of_int x) = of_int x"
    using assms(1) by (rule dec_round_exact [of x _ 0]) simp
  show ?thesis
    using to_wad_exact [OF r, of d] from_wad_exact [OF r, of d] by simp
qed

theorem wad_round_trip_witness:
  "\<bar>100000000 :: int\<bar> < 10 ^ 28 \<and> \<bar>18 - 6 :: int\<bar> \<le> 999972
   \<and> to_wad 100000000 6 = 100000000000000000000
   \<and> from_wad (to_wad 100000000 6) 6 = 100000000"
proof -
  have h: "\<bar>100000000 :: int\<bar> < 10 ^ 28" by simp
  have g: "\<bar>18 - 6 :: int\<bar> \<le> 999972" by simp
  note r = wad_round_trip [OF h g]
  have a: "to_wad 100000000 6 = 100000000000000000000"
    using conjunct1 [OF r] by simp
  have b: "from_wad (to_wad 100000000 6) 6 = 100000000"
    using conjunct2 [OF r] by simp
  from h g a b show ?thesis by blast
qed

text \<open>
  Claim C3 fails as stated: an amount of 15 at 19 decimals becomes 1.5, not the truncated
  1, and a 29-digit amount scaled down by ten is rounded up in its last digit.
\<close>

theorem scaling_down_keeps_fraction:
  "to_wad 15 19 = 3 / 2
   \<and> to_wad 10000000000000000000000000006 19 = 1000000000000000000000000001"
  using to_wad_15_19 to_wad_rounds by simp

section \<open>The solvency curve\<close>

text \<open>
  Claim C1 at a threshold of 0.23 and a ratio of 0.1, both in WAD: the first branch adds
  \<open>(1 - 0.23) / 5 = 0.154\<close>, a plain number, to \<open>0.23 - 0.1\<close> in WAD. The claim's value is
  0.284, in WAD 284000000000000000.
\<close>

theorem first_branch_mixes_scales:
  "solvency_curve_integral 230000000000000000 100000000000000000
     = Inr (130000000000000000 + 154 / 1000)"
  using first_branch_sample by (simp add: solvency_curve_integral_def)

lemma unit_val: "UNIT = 1000000000000000000"
  by (simp add: UNIT_def WAD_def)

lemma dec_sub_pos: "y < x \<Longrightarrow> 0 < dec_sub x y"
  by (simp add: dec_sub_def dec_round_pos)

lemma dec_mul_pos: "0 < x \<Longrightarrow> 0 < y \<Longrightarrow> 0 < dec_mul x y"
  by (simp add: dec_mul_def dec_round_pos)


declare pow_uint.simps [simp del]

lemma pow_uint_4:
  "pow_uint p b 4 = round_to p (round_to p (b * b) * round_to p (b * b))"
  by (simp add: pow_uint.simps [of p b 4] pow_uint.simps [of p b 2] pow_uint.simps [of p b 1]
      pow_uint.simps [of p b "Suc 0"] Let_def)

lemma pow_uint_5:
  "pow_uint p b 5 = round_to p (round_to p (round_to p (b * b) * round_to p (b * b)) * b)"
  by (simp add: pow_uint.simps [of p b 5] pow_uint.simps [of p b 2] pow_uint.simps [of p b 1]
      pow_uint.simps [of p b "Suc 0"] Let_def)

lemma dec_pow_4:
  "dec_pow x 4 = round_to 28 (round_to 31 (round_to 31 (x * x) * round_to 31 (x * x)))"
  by (simp add: dec_pow_def prec_def ilog10.simps [of 4] pow_uint_4)

lemma dec_pow_5:
  "dec_pow x 5
     = round_to 28 (round_to 31 (round_to 31 (round_to 31 (x * x) * round_to 31 (x * x)) * x))"
  by (simp add: dec_pow_def prec_def ilog10.simps [of 5] pow_uint_5)

lemma dec_pow_4_pos: "0 < x \<Longrightarrow> 0 < dec_pow x 4"
  by (simp add: dec_pow_4 round_to_pos)

lemma dec_pow_5_pos: "0 < x \<Longrightarrow> 0 < dec_pow x 5"
  by (simp add: dec_pow_5 round_to_pos)

lemma second_branch_pos:
  assumes "t < UNIT" "r < UNIT"
  shows "\<exists>v. second_branch t r = Inr v \<and> 0 < v"
proof -
  have n: "0 < dec_pow (dec_sub UNIT r) 5"
    using assms(2) by (intro dec_pow_5_pos dec_sub_pos)
  have d: "0 < dec_mul 5000000000000000000 (dec_pow (dec_sub UNIT t) 4)"
    using assms(1) by (intro dec_mul_pos dec_pow_4_pos dec_sub_pos) simp_all
  from n d have "0 < dec_round (dec_pow (dec_sub UNIT r) 5
      / dec_mul 5000000000000000000 (dec_pow (dec_sub UNIT t) 4))"
    by (intro dec_round_pos divide_pos_pos)
  with d show ?thesis by (simp add: second_branch_def dec_div_def)
qed









lemma round_to_exact':
  "\<bar>m\<bar> < 10 ^ p \<Longrightarrow> x = of_int m * 10 powi k \<Longrightarrow> round_to p x = x"
  by (simp add: round_to_exact)


lemma round_half_even_tie:
  assumes "y = of_int n + 1 / 2" "even n"
  shows "round_half_even y = n"
proof -
  have f: "\<lfloor>y\<rfloor> = n" unfolding assms(1) by (intro floor_unique) simp_all
  show ?thesis unfolding round_half_even_def Let_def f using assms by simp
qed

lemma dec_round_tie:
  assumes "10 powi a \<le> \<bar>x\<bar>" "\<bar>x\<bar> < 10 powi (a + 1)"
    and "x / 10 powi (a - 27) = of_int n + 1 / 2" "even n"
  shows "dec_round x = of_int n * 10 powi (a - 27)"
proof -
  have "(0::rat) < 10 powi a" by simp
  then have "0 < \<bar>x\<bar>" using assms(1) by (rule less_le_trans)
  then have nz: "x \<noteq> 0" by simp
  have a: "adjusted x = a" using assms(1,2) by (rule adjusted_unique)
  show ?thesis
    using nz round_half_even_tie [OF assms(3,4)]
    by (simp add: dec_round_def prec_def round_to_def Let_def a)
qed



lemma second_branch_near_one:
  "second_branch 999999999999999999 999999999999999999 = Inr (1 / 5000000000000000000)"
proof -
  have 1: "dec_sub UNIT 999999999999999999 = 1"
    unfolding dec_sub_def unit_val
    by (rule trans [OF dec_round_exact [of 1 _ 0]]) simp_all
  have r: "round_to 31 1 = 1" "round_to 28 1 = 1"
    using round_to_of_int [of 1 31] round_to_of_int [of 1 28] by simp_all
  have 2: "dec_pow 1 5 = 1" by (simp add: dec_pow_5 r)
  have 3: "dec_pow 1 4 = 1" by (simp add: dec_pow_4 r)
  have 4: "dec_mul 5000000000000000000 1 = 5000000000000000000"
    unfolding dec_mul_def
    by (rule trans [OF dec_round_exact [of 5 _ 18]]) simp_all
  have 5: "dec_div 1 5000000000000000000 = Inr (1 / 5000000000000000000)"
    unfolding dec_div_def
    using dec_round_exact [of 2 "1 / 5000000000000000000" "- 19"] by simp
  show ?thesis
    unfolding second_branch_def by (simp only: 1 2 3 4 5)
qed

text \<open>
  Claim C2 fails as stated: at a threshold of 0.999999999999999999 the first branch
  gives 0 and the second branch's expression gives \<open>2 * 10\<^sup>-\<^sup>1\<^sup>9\<close>.
\<close>

theorem branches_differ_near_one:
  "first_branch 999999999999999999 999999999999999999 = 0
   \<and> second_branch 999999999999999999 999999999999999999 = Inr (1 / 5000000000000000000)"
  using first_branch_near_one second_branch_near_one by simp

text \<open>
  Claim C2, as the code has it. For every threshold with at most five decimal places
  (\<open>j / 100000\<close> with \<open>0 < j < 100000\<close>, in WAD \<open>j * 10\<^sup>1\<^sup>3\<close>), every Decimal operation of
  the two branches is exact at the threshold, and the second branch's expression equals
  the first branch's value there.
\<close>

theorem branches_agree_five_decimals:
  assumes "0 < j" "j < 100000"
  shows "second_branch (of_int j * 10 ^ 13) (of_int j * 10 ^ 13)
           = Inr (first_branch (of_int j * 10 ^ 13) (of_int j * 10 ^ 13))"
proof -
  define m where "m = 100000 - j"
  define t :: rat where "t = of_int j * 10 ^ 13"
  define a :: rat where "a = of_int m * 10 powi 13"
  define q :: rat where "q = of_int (2 * m) * 10 powi (- 6)"
  have m: "0 < m" "m < 100000" using assms by (simp_all add: m_def)
  have p2: "m ^ 2 < 10 ^ 10" using power_strict_mono [of m 100000 2] m by simp
  have p4: "m ^ 4 < 10 ^ 20" using power_strict_mono [of m 100000 4] m by simp
  have p5: "m ^ 5 < 10 ^ 25" using power_strict_mono [of m 100000 5] m by simp
  have pos: "0 < m ^ 2" "0 < m ^ 4" "0 < m ^ 5" using m by simp_all
  have mr: "(of_int m :: rat) \<noteq> 0" using m by simp
  have sub: "dec_sub UNIT t = a"
    unfolding dec_sub_def a_def
    by (rule trans [OF dec_round_exact [of m _ 13]])
      (use m in \<open>simp_all add: unit_val t_def m_def\<close>)
  have b: "dec_divide a 5000000000000000000 = q"
    unfolding dec_divide_def q_def
    by (rule trans [OF dec_round_exact [of "2 * m" _ "- 6"]])
      (use m in \<open>simp_all add: a_def\<close>)
  have c: "dec_add q t = of_int (2 * m + j * 10 ^ 19) * 10 powi (- 6)"
    unfolding dec_add_def
    by (rule trans [OF dec_round_exact [of "2 * m + j * 10 ^ 19" _ "- 6"]])
      (use m assms in \<open>simp_all add: q_def t_def field_simps\<close>)
  have d: "dec_sub (of_int (2 * m + j * 10 ^ 19) * 10 powi (- 6)) t = q"
    unfolding dec_sub_def q_def
    by (rule trans [OF dec_round_exact [of "2 * m" _ "- 6"]])
      (use m in \<open>simp_all add: t_def field_simps\<close>)
  have first: "first_branch t t = q"
    unfolding first_branch_def by (simp only: sub b c d)
  have s2: "round_to 31 (a * a) = of_int (m ^ 2) * 10 powi 26"
    by (rule trans [OF round_to_exact' [of "m ^ 2" 31 _ 26]])
      (use p2 pos in \<open>simp_all add: a_def power2_eq_square\<close>)
  have s4: "round_to 31 (of_int (m ^ 2) * 10 powi 26 * (of_int (m ^ 2) * 10 powi 26))
      = of_int (m ^ 4) * 10 powi 52"
    by (rule trans [OF round_to_exact' [of "m ^ 4" 31 _ 52]])
      (use p4 pos in \<open>simp_all add: power2_eq_square power4_eq_xxxx\<close>)
  have s5: "round_to 31 (of_int (m ^ 4) * 10 powi 52 * a) = of_int (m ^ 5) * 10 powi 65"
    by (rule trans [OF round_to_exact' [of "m ^ 5" 31 _ 65]])
      (use p5 pos in \<open>simp_all add: a_def power4_eq_xxxx eval_nat_numeral\<close>)
  have f5: "round_to 28 (of_int (m ^ 5) * 10 powi 65) = of_int (m ^ 5) * 10 powi 65"
    by (rule round_to_exact' [of "m ^ 5" 28 _ 65]) (use p5 pos in simp_all)
  have f4: "round_to 28 (of_int (m ^ 4) * 10 powi 52) = of_int (m ^ 4) * 10 powi 52"
    by (rule round_to_exact' [of "m ^ 4" 28 _ 52]) (use p4 pos in simp_all)
  have pow5: "dec_pow a 5 = of_int (m ^ 5) * 10 powi 65"
    by (simp only: dec_pow_5 s2 s4 s5 f5)
  have pow4: "dec_pow a 4 = of_int (m ^ 4) * 10 powi 52"
    by (simp only: dec_pow_4 s2 s4 f4)
  have den: "dec_mul 5000000000000000000 (of_int (m ^ 4) * 10 powi 52)
      = of_int (5 * m ^ 4) * 10 powi 70"
    unfolding dec_mul_def
    by (rule trans [OF dec_round_exact [of "5 * m ^ 4" _ 70]]) (use p4 pos in simp_all)
  have dnz: "(of_int (5 * m ^ 4) :: rat) * 10 powi 70 \<noteq> 0" using m by simp
  have quot: "of_int (m ^ 5) * 10 powi 65 / (of_int (5 * m ^ 4) * 10 powi 70) = q"
    using mr by (simp add: q_def eval_nat_numeral field_simps)
  have qx: "dec_round q = q"
    unfolding q_def by (rule dec_round_exact [of "2 * m" _ "- 6"]) (use m in simp_all)
  have second: "second_branch t t = Inr q"
    unfolding second_branch_def
    using dnz by (simp only: sub pow5 pow4 den dec_div_def quot qx if_False)
  show ?thesis
    using first second by (simp only: t_def)
qed

theorem branches_agree_five_decimals_witness:
  "(0::int) < 23000 \<and> (23000::int) < 100000
   \<and> second_branch 230000000000000000 230000000000000000
       = Inr (first_branch 230000000000000000 230000000000000000)"
  using branches_agree_five_decimals [of 23000] by simp

section \<open>Quoting an amount of zero\<close>

lemma integral_defined:
  assumes "t \<noteq> 0" "r \<noteq> 0"
  shows "\<exists>v. solvency_curve_integral t r = Inr v"
proof -
  consider "r \<le> t" | "t < r" "r < UNIT" | "t < r" "UNIT \<le> r" by linarith
  then show ?thesis
  proof cases
    case 1
    with assms show ?thesis by (simp add: solvency_curve_integral_def)
  next
    case 2
    then have "t < UNIT" by simp
    from second_branch_pos [OF this 2(2)] obtain v where "second_branch t r = Inr v" by blast
    with assms 2 show ?thesis by (simp add: solvency_curve_integral_def)
  next
    case 3
    with assms show ?thesis by (simp add: solvency_curve_integral_def)
  qed
qed

lemma dec_div_defined: "y \<noteq> 0 \<Longrightarrow> \<exists>v. dec_div x y = Inr v"
  by (simp add: dec_div_def)

lemma dec_sub_eq_0_iff: "dec_sub x y = 0 \<longleftrightarrow> x = y"
  by (simp add: dec_sub_def dec_round_eq_0_iff)

lemma dec_mul_eq_0_iff: "dec_mul x y = 0 \<longleftrightarrow> x = 0 \<or> y = 0"
  by (simp add: dec_mul_def dec_round_eq_0_iff)

lemma dec_divide_eq_0_iff: "dec_divide x y = 0 \<longleftrightarrow> x = 0 \<or> y = 0"
  by (simp add: dec_divide_def dec_round_eq_0_iff)

lemma score_between:
  assumes "l \<noteq> 0" "t \<noteq> 0" "c \<noteq> 0" "c' \<noteq> 0"
  shows "\<exists>s. (if dec_divide c l = dec_divide c' l then Inr 0
             else case solvency_curve_integral t (dec_mul (dec_divide c l) UNIT) of
                    Inl e \<Rightarrow> Inl e
                  | Inr solvency_integral_before \<Rightarrow>
                      (case solvency_curve_integral t (dec_mul (dec_divide c' l) UNIT) of
                         Inl e \<Rightarrow> Inl e
                       | Inr solvency_integral_after \<Rightarrow>
                           if dec_divide c' l < dec_divide c l
                           then dec_div (dec_sub solvency_integral_after solvency_integral_before)
                                        (dec_sub (dec_divide c l) (dec_divide c' l))
                           else dec_div (dec_sub solvency_integral_before solvency_integral_after)
                                        (dec_sub (dec_divide c' l) (dec_divide c l))))
           = (Inr s :: error + decimal)"
proof (cases "dec_divide c l = dec_divide c' l")
  case True
  then show ?thesis by simp
next
  case False
  have u: "UNIT \<noteq> 0" by (simp add: unit_val)
  have rb: "dec_mul (dec_divide c l) UNIT \<noteq> 0"
    using assms u by (simp add: dec_mul_eq_0_iff dec_divide_eq_0_iff)
  have ra: "dec_mul (dec_divide c' l) UNIT \<noteq> 0"
    using assms u by (simp add: dec_mul_eq_0_iff dec_divide_eq_0_iff)
  from integral_defined [OF assms(2) rb]
  obtain vb where vb: "solvency_curve_integral t (dec_mul (dec_divide c l) UNIT) = Inr vb" ..
  from integral_defined [OF assms(2) ra]
  obtain va where va: "solvency_curve_integral t (dec_mul (dec_divide c' l) UNIT) = Inr va" ..
  have d1: "dec_sub (dec_divide c l) (dec_divide c' l) \<noteq> 0"
    using False by (simp add: dec_sub_eq_0_iff)
  have d2: "dec_sub (dec_divide c' l) (dec_divide c l) \<noteq> 0"
    using False by (simp add: dec_sub_eq_0_iff)
  from dec_div_defined [OF d1] dec_div_defined [OF d2]
  show ?thesis using False by (simp add: vb va)
qed

lemma dec_add_zero: "dec_add c 0 = dec_round c"
  by (simp add: dec_add_def)

lemma dec_sub_zero: "dec_sub c 0 = dec_round c"
  by (simp add: dec_sub_def)

lemma score_zero_change:
  assumes "l \<noteq> 0" "t \<noteq> 0"
  shows "\<exists>s. solvency_score t c l 0 b = Inr s"
proof (cases "c = 0")
  case True
  then show ?thesis
    using assms by (simp add: solvency_score_def Let_def dec_add_zero dec_sub_zero dec_round_zero)
next
  case False
  then have c': "dec_round c \<noteq> 0" by (simp add: dec_round_eq_0_iff)
  note sb = score_between [OF assms False c']
  have a: "\<exists>s. solvency_score t c l 0 True = Inr s"
    unfolding solvency_score_def Let_def if_True dec_add_zero
    using sb assms(1) by simp
  have s: "\<exists>s. solvency_score t c l 0 False = Inr s"
    unfolding solvency_score_def Let_def if_False dec_sub_zero
    using sb assms(1) by simp
  from a s show ?thesis by (cases b) simp_all
qed

lemma to_wad_zero: "to_wad 0 d = 0"
  by (simp add: to_wad_def dec_mul_def dec_divide_def dec_round_zero)

lemma from_wad_zero: "from_wad 0 d = 0"
  by (simp add: from_wad_def dec_mul_def dec_divide_def dec_round_zero)

lemma compute_to_amount_zero: "compute_to_amount si sj 0 = 0"
  by (simp add: compute_to_amount_def dec_mul_def dec_divide_def dec_round_zero)

lemma haircut_zero: "haircut 0 rate = 0"
  by (simp add: haircut_def dec_mul_def dec_divide_def dec_round_zero)

lemma dec_to_int_zero: "dec_to_int 0 = 0"
  by (simp add: dec_to_int_def)

text \<open>
  Claim C9, as the code has it. In a stable pool with a nonzero threshold (the data model
  has \<open>0 < rThreshold < 1\<close>), for two registered assets of one aggregate account with nonzero
  liability and nonnegative cash, \<open>quote_swap\<close> with an amount of 0 does not fail and
  returns \<open>(0, 0)\<close>.
\<close>

theorem quote_zero_amount:
  assumes "pool_type (config self) = ''stable''" and "r_threshold (config self) \<noteq> 0"
    and "assets self from_token = Some fa" and "assets self to_token = Some ta"
    and "aggregate_account fa = aggregate_account ta"
    and "liability fa \<noteq> 0" and "liability ta \<noteq> 0"
    and "0 \<le> cash fa" and "0 \<le> cash ta"
  shows "quote_swap self from_token to_token 0 = Inr (0, 0)"
proof -
  from score_zero_change [OF assms(6) assms(2)]
  obtain s1 where s1: "solvency_score (r_threshold (config self)) (cash fa) (liability fa) 0 True
      = Inr s1" by blast
  from score_zero_change [OF assms(7) assms(2)]
  obtain s2 where s2: "solvency_score (r_threshold (config self)) (cash ta) (liability ta) 0 False
      = Inr s2" by blast
  have "quote_swap_internal self fa ta 0 = Inr (0, 0)"
    using assms(1,9)
    by (simp add: quote_swap_internal_def s1 s2 Let_def compute_to_amount_zero haircut_zero
        dec_sub_def dec_round_zero)
  then show ?thesis
    using assms(3,4,5)
    by (simp add: quote_swap_def Let_def to_wad_zero from_wad_zero dec_to_int_zero)
qed

theorem quote_zero_amount_witness:
  "pool_type (config stable_pool) = ''stable'' \<and> r_threshold (config stable_pool) \<noteq> 0
   \<and> (\<exists>fa ta. assets stable_pool USDe = Some fa \<and> assets stable_pool USDC = Some ta
        \<and> aggregate_account fa = aggregate_account ta
        \<and> liability fa \<noteq> 0 \<and> liability ta \<noteq> 0 \<and> 0 \<le> cash fa \<and> 0 \<le> cash ta)
   \<and> quote_swap stable_pool USDe USDC 0 = Inr (0, 0)"
proof -
  define fa where "fa = the (assets stable_pool USDe)"
  define ta where "ta = the (assets stable_pool USDC)"
  have h1: "pool_type (config stable_pool) = ''stable''" by (simp add: stable_pool_def)
  have h2: "r_threshold (config stable_pool) \<noteq> 0" by (simp add: stable_pool_def)
  have h3: "assets stable_pool USDe = Some fa" by (simp add: fa_def stable_pool_def token_defs)
  have h4: "assets stable_pool USDC = Some ta" by (simp add: ta_def stable_pool_def token_defs)
  have h5: "aggregate_account fa = aggregate_account ta"
    by (simp add: fa_def ta_def stable_pool_def token_defs)
  have h6: "liability fa \<noteq> 0" by (simp add: fa_def stable_pool_def token_defs)
  have h7: "liability ta \<noteq> 0" by (simp add: ta_def stable_pool_def token_defs)
  have h8: "0 \<le> cash fa" by (simp add: fa_def stable_pool_def token_defs)
  have h9: "0 \<le> cash ta" by (simp add: ta_def stable_pool_def token_defs)
  from quote_zero_amount [OF h1 h2 h3 h4 h5 h6 h7 h8 h9]
  have "quote_swap stable_pool USDe USDC 0 = Inr (0, 0)" .
  with h1 h2 h3 h4 h5 h6 h7 h8 h9 show ?thesis by blast
qed

lemma zero_threshold_cov_before:
  "dec_divide 10000000000000000000000000005 3 = 3333333333333333333333333335"
  unfolding dec_divide_def
  by (rule trans [OF dec_round_exact [of 3333333333333333333333333335 _ 0]]) simp_all

lemma zero_threshold_cash_rounded:
  "dec_add 10000000000000000000000000005 0 = 10000000000000000000000000000"
proof -
  have "dec_round 10000000000000000000000000005
      = of_int 1000000000000000000000000000 * 10 powi (28 - 27)"
    by (rule dec_round_tie) simp_all
  then show ?thesis by (simp add: dec_add_def)
qed

lemma zero_threshold_cov_after:
  "dec_divide 10000000000000000000000000000 3 = 3333333333333333333333333333"
proof -
  have "dec_round (10000000000000000000000000000 / 3)
      = of_int 3333333333333333333333333333 * 10 powi (27 - 27)"
    by (rule dec_round_near) simp_all
  then show ?thesis by (simp add: dec_divide_def)
qed

text \<open>
  Claim C9 fails as stated for a stable pool whose threshold is zero. The cash of the
  source asset, 10000000000000000000000000005, has 29 digits: \<open>cash + 0\<close> rounds it to
  \<open>10 ^ 28\<close>, the coverage ratio moves from 3333333333333333333333333335 to
  3333333333333333333333333333, and the integral raises on the zero threshold.
\<close>

theorem zero_threshold_quote_fails:
  "quote_swap zero_threshold_pool ''A'' ''B'' 0 = Inl ZeroThreshold"
proof -
  have score: "solvency_score 0 10000000000000000000000000005 3 0 True = Inl ZeroThreshold"
    by (simp add: solvency_score_def Let_def zero_threshold_cov_before
        zero_threshold_cash_rounded zero_threshold_cov_after solvency_curve_integral_def)
  have "quote_swap_internal zero_threshold_pool
          \<lparr>token_address = ''A'', cash = 10000000000000000000000000005,
           liability = 3, underlying_token_decimals = 18,
           aggregate_account = ''acc'', price_wad = None\<rparr>
          \<lparr>token_address = ''B'', cash = 100000000000000000000,
           liability = 100000000000000000000, underlying_token_decimals = 18,
           aggregate_account = ''acc'', price_wad = None\<rparr> 0 = Inl ZeroThreshold"
    by (simp add: quote_swap_internal_def zero_threshold_pool_def Let_def score)
  then show ?thesis
    by (simp add: quote_swap_def zero_threshold_pool_def Let_def to_wad_zero)
qed

section \<open>A quote below zero\<close>

lemma thin_score_from:
  "solvency_score 230000000000000000 100000000000000000000 100000000000000000000
     10000000000000000000 True = Inr 0"
proof -
  have e1: "dec_divide 100000000000000000000 100000000000000000000 = 1"
    unfolding dec_divide_def
    by (rule trans [OF dec_round_exact [of "1" _ "0"]]) simp_all
  have e2: "dec_add 100000000000000000000 10000000000000000000 = 110000000000000000000"
    unfolding dec_add_def
    by (rule trans [OF dec_round_exact [of "11" _ "19"]]) simp_all
  have e3: "dec_divide 110000000000000000000 100000000000000000000 = 11 / 10"
    unfolding dec_divide_def
    by (rule trans [OF dec_round_exact [of "11" _ "- 1"]]) simp_all
  have e4: "dec_mul 1 1000000000000000000 = 1000000000000000000"
    unfolding dec_mul_def
    by (rule trans [OF dec_round_exact [of "1" _ "18"]]) simp_all
  have e5: "dec_mul (11 / 10) 1000000000000000000 = 1100000000000000000"
    unfolding dec_mul_def
    by (rule trans [OF dec_round_exact [of "11" _ "17"]]) simp_all
  have e6: "dec_sub 0 0 = 0"
    by (simp add: dec_sub_def dec_round_zero)
  have e7: "dec_sub (11 / 10) 1 = 1 / 10"
    unfolding dec_sub_def
    by (rule trans [OF dec_round_exact [of "1" _ "- 1"]]) simp_all
  have dv: "dec_div 0 (1 / 10) = Inr 0"
    by (simp add: dec_div_def dec_round_zero)
  show ?thesis
    by (simp add: solvency_score_def Let_def unit_val solvency_curve_integral_def
        e1 e2 e3 e4 e5 e6 e7 dv)
qed

lemma thin_score_to:
  "solvency_score 230000000000000000 20000000000000000000 100000000000000000000
     10000000000000000000 False = Inr 1000000000000000000"
proof -
  have e8: "dec_divide 20000000000000000000 100000000000000000000 = 1 / 5"
    unfolding dec_divide_def
    by (rule trans [OF dec_round_exact [of "2" _ "- 1"]]) simp_all
  have e9: "dec_sub 20000000000000000000 10000000000000000000 = 10000000000000000000"
    unfolding dec_sub_def
    by (rule trans [OF dec_round_exact [of "1" _ "19"]]) simp_all
  have e10: "dec_divide 10000000000000000000 100000000000000000000 = 1 / 10"
    unfolding dec_divide_def
    by (rule trans [OF dec_round_exact [of "1" _ "- 1"]]) simp_all
  have e11: "dec_mul (1 / 5) 1000000000000000000 = 200000000000000000"
    unfolding dec_mul_def
    by (rule trans [OF dec_round_exact [of "2" _ "17"]]) simp_all
  have e12: "dec_mul (1 / 10) 1000000000000000000 = 100000000000000000"
    unfolding dec_mul_def
    by (rule trans [OF dec_round_exact [of "1" _ "17"]]) simp_all
  have e13: "dec_sub 1000000000000000000 230000000000000000 = 770000000000000000"
    unfolding dec_sub_def
    by (rule trans [OF dec_round_exact [of "77" _ "16"]]) simp_all
  have e14: "dec_divide 770000000000000000 5000000000000000000 = 77 / 500"
    unfolding dec_divide_def
    by (rule trans [OF dec_round_exact [of "154" _ "- 3"]]) simp_all
  have e15: "dec_add (77 / 500) 230000000000000000 = 115000000000000000077 / 500"
    unfolding dec_add_def
    by (rule trans [OF dec_round_exact [of "230000000000000000154" _ "- 3"]]) simp_all
  have e16: "dec_sub (115000000000000000077 / 500) 200000000000000000 = 15000000000000000077 / 500"
    unfolding dec_sub_def
    by (rule trans [OF dec_round_exact [of "30000000000000000154" _ "- 3"]]) simp_all
  have e17: "dec_sub (115000000000000000077 / 500) 100000000000000000 = 65000000000000000077 / 500"
    unfolding dec_sub_def
    by (rule trans [OF dec_round_exact [of "130000000000000000154" _ "- 3"]]) simp_all
  have e18: "dec_sub (65000000000000000077 / 500) (15000000000000000077 / 500) = 100000000000000000"
    unfolding dec_sub_def
    by (rule trans [OF dec_round_exact [of "1" _ "17"]]) simp_all
  have e19: "dec_sub (1 / 5) (1 / 10) = 1 / 10"
    unfolding dec_sub_def
    by (rule trans [OF dec_round_exact [of "1" _ "- 1"]]) simp_all
  have dv: "dec_div 100000000000000000 (1 / 10) = Inr 1000000000000000000"
    unfolding dec_div_def
    using dec_round_exact [of 1 "100000000000000000 / (1 / 10)" 18] by simp
  show ?thesis
    by (simp add: solvency_score_def Let_def unit_val solvency_curve_integral_def
        first_branch_def e8 e9 e10 e11 e12 e13 e14 e15 e16 e17 e18 e19 dv)
qed

lemma thin_internal:
  "quote_swap_internal thin_pool (the (assets thin_pool ''A'')) (the (assets thin_pool ''B''))
     10000000000000000000
   = Inr (- 9999499999999999990000500000000000000, - 499999999999999999500000000000000)"
proof -
  have e20: "dec_mul 0 1000000000000000000 = 0"
    by (simp add: dec_mul_def dec_round_zero)
  have e21: "dec_mul 1000000000000000000 1000000000000000000 = 1000000000000000000000000000000000000"
    unfolding dec_mul_def
    by (rule trans [OF dec_round_exact [of "1" _ "36"]]) simp_all
  have e22: "dec_add 1000000000000000000 0 = 1000000000000000000"
    unfolding dec_add_def
    by (rule trans [OF dec_round_exact [of "1" _ "18"]]) simp_all
  have e23: "dec_sub 1000000000000000000 1000000000000000000000000000000000000 = - 999999999999999999000000000000000000"
    unfolding dec_sub_def
    by (rule trans [OF dec_round_exact [of "- 999999999999999999" _ "18"]]) simp_all
  have e24: "dec_mul 10000000000000000000 (- 999999999999999999000000000000000000) = - 9999999999999999990000000000000000000000000000000000000"
    unfolding dec_mul_def
    by (rule trans [OF dec_round_exact [of "- 999999999999999999" _ "37"]]) simp_all
  have e25: "dec_divide (- 9999999999999999990000000000000000000000000000000000000) 1000000000000000000 = - 9999999999999999990000000000000000000"
    unfolding dec_divide_def
    by (rule trans [OF dec_round_exact [of "- 999999999999999999" _ "19"]]) simp_all
  have e26: "dec_mul (- 9999999999999999990000000000000000000) 50000000000000 = - 499999999999999999500000000000000000000000000000000"
    unfolding dec_mul_def
    by (rule trans [OF dec_round_exact [of "- 4999999999999999995" _ "32"]]) simp_all
  have e27: "dec_divide (- 499999999999999999500000000000000000000000000000000) 1000000000000000000 = - 499999999999999999500000000000000"
    unfolding dec_divide_def
    by (rule trans [OF dec_round_exact [of "- 4999999999999999995" _ "14"]]) simp_all
  have e28: "dec_sub (- 9999999999999999990000000000000000000) (- 499999999999999999500000000000000) = - 9999499999999999990000500000000000000"
    unfolding dec_sub_def
    by (rule trans [OF dec_round_exact [of "- 99994999999999999900005" _ "14"]]) simp_all
  show ?thesis
    by (simp add: quote_swap_internal_def thin_pool_def Let_def thin_score_from thin_score_to
        compute_to_amount_def haircut_def unit_val e20 e21 e22 e23 e24 e25 e26 e27 e28)
qed

text \<open>
  Claim C5 fails as stated. In a stable pool with the mainnet configuration whose
  destination asset has a coverage ratio of 0.2, below the threshold, a swap of 10 tokens
  passes the cash check, the multiplier \<open>1 + solvencyFrom - solvencyTo\<close> is far below
  zero, and \<open>quote_swap\<close> returns a negative amount and a negative haircut.
\<close>

theorem quote_swap_negative:
  "quote_swap thin_pool ''A'' ''B'' 10000000000000000000
     = Inr (- 9999499999999999990000500000000000000, - 499999999999999999500000000000000)"
  using thin_internal
  by (simp add: quote_swap_def thin_pool_def Let_def to_wad_def from_wad_def dec_to_int_def)


text \<open>Claim C5 on the same pool: a swap of 30 tokens against a cash of 20 is refused.\<close>

theorem insufficient_cash_iff_witness:
  "quote_swap thin_pool ''A'' ''B'' 30000000000000000000 = Inl InsufficientCash"
proof -
  have "\<exists>fa ta ideal.
        assets thin_pool ''A'' = Some fa \<and> assets thin_pool ''B'' = Some ta
        \<and> aggregate_account fa = aggregate_account ta
        \<and> (if pool_type (config thin_pool) = ''stable''
            then Inr (to_wad 30000000000000000000 (underlying_token_decimals fa))
            else quote_ideal_to_amount fa ta
                   (to_wad 30000000000000000000 (underlying_token_decimals fa)))
           = Inr ideal
        \<and> cash ta < ideal"
    by (simp add: thin_pool_def to_wad_def)
  then show ?thesis by (simp only: insufficient_cash_iff)
qed

end
